theory Spec2Isabelle
  imports Main "HOL-Library.AList"
begin

section \<open>The host: ECMAScript time values and \<open>Date\<close>\<close>

text \<open>
  The reminder module (\<open>src/unnamed/part_000\<close>) computes with JavaScript \<open>Date\<close>
  objects. A \<open>Date\<close> holds a time value: a whole number of milliseconds since
  1970-01-01T00:00:00Z of magnitude at most 8.64e15, or NaN (an invalid date). The
  definitions of this section are the abstract operations of the ECMAScript language
  specification (section "Date Objects"), with the same names. Numbers are modelled as
  unbounded integers: every \<open>Date\<close> operation ends in \<open>TimeClip\<close>, which maps every
  result beyond 8.64e15 (below 2^53, where doubles are exact) to NaN.
\<close>

datatype jsdate = Date int | Invalid_Date

definition msPerDay :: int where
  "msPerDay = 86400000"

definition Day :: "int \<Rightarrow> int" where
  "Day t = t div msPerDay"

definition TimeWithinDay :: "int \<Rightarrow> int" where
  "TimeWithinDay t = t mod msPerDay"

definition InLeapYear :: "int \<Rightarrow> bool" where
  "InLeapYear y = (y mod 4 = 0 \<and> (y mod 100 \<noteq> 0 \<or> y mod 400 = 0))"

definition DaysInYear :: "int \<Rightarrow> int" where
  "DaysInYear y = (if InLeapYear y then 366 else 365)"

definition DayFromYear :: "int \<Rightarrow> int" where
  "DayFromYear y =
     365 * (y - 1970) + (y - 1969) div 4 - (y - 1901) div 100 + (y - 1601) div 400"

text \<open>
  \<open>YearFromTime(t)\<close> is the largest \<open>y\<close> with \<open>DayFromYear y \<le> Day t\<close>. It is
  found by walking from an estimate, down while the year starts after the day and up
  while the next year has already started.
\<close>

function year_search :: "int \<Rightarrow> int \<Rightarrow> int" where
  "year_search d y =
     (if d < DayFromYear y then year_search d (y - 1)
      else if DayFromYear (y + 1) \<le> d then year_search d (y + 1)
      else y)"
  by pat_completeness auto

lemma div_succ:
  fixes a n :: int
  assumes "0 < n"
  shows "(a + 1) div n = a div n + (if (a + 1) mod n = 0 then 1 else 0)"
proof (cases "a mod n = n - 1")
  case True
  have a: "a = n * (a div n) + (n - 1)" using True by (metis mult_div_mod_eq)
  have "a + 1 = n * (a div n + 1) + 0" by (subst a) (simp add: algebra_simps)
  then have "(a + 1) div n = a div n + 1" "(a + 1) mod n = 0"
    using assms by (auto intro: int_div_pos_eq int_mod_pos_eq)
  then show ?thesis by simp
next
  case False
  have r: "0 \<le> a mod n" "a mod n < n" using assms by simp_all
  have a: "a + 1 = n * (a div n) + (a mod n + 1)" by simp
  have lt: "a mod n + 1 < n" using False r by linarith
  have "(a + 1) div n = a div n"
    by (rule int_div_pos_eq [OF a]) (use r lt in auto)
  moreover have "(a + 1) mod n = a mod n + 1"
    by (rule int_mod_pos_eq [OF a]) (use r lt in auto)
  ultimately show ?thesis using r by simp
qed

lemma mod_shift: "0 < n \<Longrightarrow> k mod n = 0 \<Longrightarrow> ((y::int) - k) mod n = y mod n"
  by (metis mod_diff_right_eq diff_zero)

lemma leap_count:
  "(r \<longrightarrow> q) \<Longrightarrow> (q \<longrightarrow> p) \<Longrightarrow>
     365 + (if p then 1 else 0::int) - (if q then 1 else 0) + (if r then 1 else 0)
       = (if p \<and> (\<not> q \<or> r) then 366 else 365)"
  by (cases p; cases q; cases r) simp_all

lemma DayFromYear_step: "DayFromYear (y + 1) = DayFromYear y + DaysInYear y"
proof -
  define a :: int where "a = (if y mod 4 = 0 then 1 else 0)"
  define b :: int where "b = (if y mod 100 = 0 then 1 else 0)"
  define c :: int where "c = (if y mod 400 = 0 then 1 else 0)"
  define A where "A = (y - 1969) div 4"
  define B where "B = (y - 1901) div 100"
  define C where "C = (y - 1601) div 400"
  have s4: "(y - 1968) div 4 = A + a"
    using div_succ [of 4 "y - 1969"] mod_shift [of 4 1968 y] by (simp add: A_def a_def)
  have s100: "(y - 1900) div 100 = B + b"
    using div_succ [of 100 "y - 1901"] mod_shift [of 100 1900 y] by (simp add: B_def b_def)
  have s400: "(y - 1600) div 400 = C + c"
    using div_succ [of 400 "y - 1601"] mod_shift [of 400 1600 y] by (simp add: C_def c_def)
  have e1: "y + 1 - 1970 = y - 1970 + 1" "y + 1 - 1969 = y - 1968"
    "y + 1 - 1901 = y - 1900" "y + 1 - 1601 = y - 1600" by simp_all
  have L: "DayFromYear (y + 1) = 365 * (y - 1970 + 1) + (A + a) - (B + b) + (C + c)"
    by (simp only: DayFromYear_def e1 s4 s100 s400)
  have R: "DayFromYear y = 365 * (y - 1970) + A - B + C"
    by (simp only: DayFromYear_def A_def B_def C_def)
  have "DayFromYear (y + 1) = DayFromYear y + (365 + a - b + c)"
    unfolding L R by simp
  moreover have "365 + a - b + c = DaysInYear y"
  proof -
    have m100: "y mod 100 = 0 \<longrightarrow> y mod 4 = 0"
      using mod_mod_cancel [of 4 100 y] by auto
    have m400: "y mod 400 = 0 \<longrightarrow> y mod 100 = 0"
      using mod_mod_cancel [of 100 400 y] by auto
    show ?thesis
      unfolding a_def b_def c_def DaysInYear_def InLeapYear_def
      by (rule leap_count [OF m400 m100])
  qed
  ultimately show ?thesis by (simp only:)
qed

lemma DaysInYear_pos: "0 < DaysInYear y"
  by (simp add: DaysInYear_def)

termination year_search
proof (relation "measures [\<lambda>(d, y). if d < DayFromYear y then 1 else 0,
                           \<lambda>(d, y). nat \<bar>d - DayFromYear y\<bar>]", goal_cases)
  case 1
  show ?case by simp
next
  case (2 d y)
  have "DayFromYear y = DayFromYear (y - 1) + DaysInYear (y - 1)"
    using DayFromYear_step [of "y - 1"] by simp
  with 2 DaysInYear_pos [of "y - 1"] show ?case by auto
next
  case (3 d y)
  with DayFromYear_step [of y] DaysInYear_pos [of y] show ?case by auto
qed

definition YearFromDay :: "int \<Rightarrow> int" where
  "YearFromDay d = year_search d (1970 + d div 366)"

definition YearFromTime :: "int \<Rightarrow> int" where
  "YearFromTime t = YearFromDay (Day t)"

definition DayWithinYear :: "int \<Rightarrow> int" where
  "DayWithinYear t = Day t - DayFromYear (YearFromTime t)"

text \<open>
  The number of days of the year before month \<open>m\<close> (0 = January), the table behind
  \<open>MonthFromTime\<close> and \<open>DateFromTime\<close>; \<open>lp\<close> is 1 in a leap year and 0 otherwise.
\<close>

definition month_start :: "int \<Rightarrow> int \<Rightarrow> int" where
  "month_start lp m =
     (if m = 0 then 0 else if m = 1 then 31 else if m = 2 then 59 + lp
      else if m = 3 then 90 + lp else if m = 4 then 120 + lp
      else if m = 5 then 151 + lp else if m = 6 then 181 + lp
      else if m = 7 then 212 + lp else if m = 8 then 243 + lp
      else if m = 9 then 273 + lp else if m = 10 then 304 + lp
      else if m = 11 then 334 + lp else 365 + lp)"

definition leap_days :: "int \<Rightarrow> int" where
  "leap_days y = (if InLeapYear y then 1 else 0)"


definition MonthFromTime :: "int \<Rightarrow> int" where
  "MonthFromTime t =
     (let lp = leap_days (YearFromTime t); d = DayWithinYear t in
      if d < 31 then 0 else if d < 59 + lp then 1 else if d < 90 + lp then 2
      else if d < 120 + lp then 3 else if d < 151 + lp then 4
      else if d < 181 + lp then 5 else if d < 212 + lp then 6
      else if d < 243 + lp then 7 else if d < 273 + lp then 8
      else if d < 304 + lp then 9 else if d < 334 + lp then 10 else 11)"

definition DateFromTime :: "int \<Rightarrow> int" where
  "DateFromTime t =
     DayWithinYear t - month_start (leap_days (YearFromTime t)) (MonthFromTime t) + 1"

definition MakeTime :: "int \<Rightarrow> int \<Rightarrow> int \<Rightarrow> int \<Rightarrow> int" where
  "MakeTime hour minute sec ms = hour * 3600000 + minute * 60000 + sec * 1000 + ms"

definition MakeDay :: "int \<Rightarrow> int \<Rightarrow> int \<Rightarrow> int" where
  "MakeDay year month date =
     (let ym = year + month div 12; mn = month mod 12 in
      DayFromYear ym + month_start (leap_days ym) mn + date - 1)"

definition MakeDate :: "int \<Rightarrow> int \<Rightarrow> int" where
  "MakeDate day time = day * msPerDay + time"

definition TimeClip :: "int \<Rightarrow> jsdate" where
  "TimeClip t = (if \<bar>t\<bar> \<le> 8640000000000000 then Date t else Invalid_Date)"

text \<open>
  The host's time zone is the function \<open>LocalTZA(t, isUTC)\<close> of the language
  specification, in milliseconds: \<open>LocalTZA h t True\<close> is the offset of local time
  from UTC in force at the UTC time value \<open>t\<close>, and \<open>LocalTZA h t False\<close> the offset
  by which the host reads the local time value \<open>t\<close> (where a daylight-saving
  transition skips or repeats local times, the host settles on one offset). So
  \<open>LocalTime(t) = t + LocalTZA(t, true)\<close> and \<open>UTC(t) = t - LocalTZA(t, false)\<close>.
  \<open>Date.parse\<close> is specified by the language for the format that \<open>toISOString\<close>
  writes; what an engine makes of every other string is implementation-defined and is
  the host's \<open>Date_parse_other\<close>.
\<close>

record host =
  LocalTZA :: "int \<Rightarrow> bool \<Rightarrow> int"
  Date_parse_other :: "string \<Rightarrow> jsdate"

definition LocalTime :: "host \<Rightarrow> int \<Rightarrow> int" where
  "LocalTime h t = t + LocalTZA h t True"

definition UTC :: "host \<Rightarrow> int \<Rightarrow> int" where
  "UTC h t = t - LocalTZA h t False"

definition Date_getFullYear :: "host \<Rightarrow> int \<Rightarrow> int" where
  "Date_getFullYear h t = YearFromTime (LocalTime h t)"

definition Date_getMonth :: "host \<Rightarrow> int \<Rightarrow> int" where
  "Date_getMonth h t = MonthFromTime (LocalTime h t)"

definition Date_getDate :: "host \<Rightarrow> int \<Rightarrow> int" where
  "Date_getDate h t = DateFromTime (LocalTime h t)"

definition Date_setDate :: "host \<Rightarrow> jsdate \<Rightarrow> int \<Rightarrow> jsdate" where
  "Date_setDate h d dt =
     (case d of
        Invalid_Date \<Rightarrow> Invalid_Date
      | Date t0 \<Rightarrow>
          let t = LocalTime h t0;
              newDate = MakeDate (MakeDay (YearFromTime t) (MonthFromTime t) dt)
                                 (TimeWithinDay t)
          in TimeClip (UTC h newDate))"

definition Date_setMonth :: "host \<Rightarrow> jsdate \<Rightarrow> int \<Rightarrow> jsdate" where
  "Date_setMonth h d m =
     (case d of
        Invalid_Date \<Rightarrow> Invalid_Date
      | Date t0 \<Rightarrow>
          let t = LocalTime h t0;
              dt = DateFromTime t;
              newDate = MakeDate (MakeDay (YearFromTime t) m dt) (TimeWithinDay t)
          in TimeClip (UTC h newDate))"

definition Date_setHours :: "host \<Rightarrow> jsdate \<Rightarrow> int \<Rightarrow> int \<Rightarrow> int \<Rightarrow> int \<Rightarrow> jsdate" where
  "Date_setHours h d hour minute sec ms =
     (case d of
        Invalid_Date \<Rightarrow> Invalid_Date
      | Date t0 \<Rightarrow>
          let t = LocalTime h t0;
              date = MakeDate (Day t) (MakeTime hour minute sec ms)
          in TimeClip (UTC h date))"

text \<open>\<open>new Date(year, month, date, hours, minutes, seconds, ms)\<close>: a year from 0 to 99
  means 1900 + year.\<close>

definition MakeFullYear :: "int \<Rightarrow> int" where
  "MakeFullYear y = (if 0 \<le> y \<and> y \<le> 99 then 1900 + y else y)"

definition Date_new :: "host \<Rightarrow> int \<Rightarrow> int \<Rightarrow> int \<Rightarrow> int \<Rightarrow> int \<Rightarrow> int \<Rightarrow> int \<Rightarrow> jsdate" where
  "Date_new h year month dt hours minutes seconds ms =
     (let yr = MakeFullYear year;
          finalDate = MakeDate (MakeDay yr month dt) (MakeTime hours minutes seconds ms)
      in TimeClip (UTC h finalDate))"

text \<open>Relational comparison of two dates compares their time values; with NaN on
  either side it is false.\<close>

definition Date_lt :: "jsdate \<Rightarrow> jsdate \<Rightarrow> bool" where
  "Date_lt a b = (case (a, b) of (Date x, Date y) \<Rightarrow> x < y | _ \<Rightarrow> False)"

definition Date_le :: "jsdate \<Rightarrow> jsdate \<Rightarrow> bool" where
  "Date_le a b = (case (a, b) of (Date x, Date y) \<Rightarrow> x \<le> y | _ \<Rightarrow> False)"

section \<open>The host: strings and regular expressions\<close>

text \<open>
  A JavaScript string is modelled by its UTF-8 bytes. \<open>ws_len s\<close> is the number of
  bytes of the white-space character at the head of \<open>s\<close>, or 0: the class \<open>\s\<close>
  (and what \<open>trim\<close> strips) is TAB, LF, VT, FF, CR, SPACE, U+00A0, U+1680,
  U+2000 to U+200A, U+2028, U+2029, U+202F, U+205F, U+3000 and U+FEFF.
  \<open>lt_len\<close> does the same for the line terminators LF, CR, U+2028 and U+2029, which
  \<open>.\<close> does not match.
\<close>

definition ws_len :: "string \<Rightarrow> nat" where
  "ws_len s =
     (case s of
        [] \<Rightarrow> 0
      | c # cs \<Rightarrow>
          if c \<in> set [CHR 0x09, CHR 0x0A, CHR 0x0B, CHR 0x0C, CHR 0x0D, CHR 0x20] then 1
          else if c = CHR 0xC2 then (if take 1 cs = [CHR 0xA0] then 2 else 0)
          else if c = CHR 0xE1 then (if take 2 cs = [CHR 0x9A, CHR 0x80] then 3 else 0)
          else if c = CHR 0xE2 then
            (if take 2 cs \<in> set
                  (map (\<lambda>k. [CHR 0x80, k])
                       [CHR 0x80, CHR 0x81, CHR 0x82, CHR 0x83, CHR 0x84, CHR 0x85, CHR 0x86,
                        CHR 0x87, CHR 0x88, CHR 0x89, CHR 0x8A, CHR 0xA8, CHR 0xA9, CHR 0xAF]
                   @ [[CHR 0x81, CHR 0x9F]])
             then 3 else 0)
          else if c = CHR 0xE3 then (if take 2 cs = [CHR 0x80, CHR 0x80] then 3 else 0)
          else if c = CHR 0xEF then (if take 2 cs = [CHR 0xBB, CHR 0xBF] then 3 else 0)
          else 0)"

definition lt_len :: "string \<Rightarrow> nat" where
  "lt_len s =
     (case s of
        [] \<Rightarrow> 0
      | c # cs \<Rightarrow>
          if c \<in> set [CHR 0x0A, CHR 0x0D] then 1
          else if c = CHR 0xE2
          then (if take 2 cs \<in> set [[CHR 0x80, CHR 0xA8], [CHR 0x80, CHR 0xA9]] then 3 else 0)
          else 0)"

definition is_digit :: "char \<Rightarrow> bool" where
  "is_digit c = (c \<in> set ''0123456789'')"

definition lower_char :: "char \<Rightarrow> char" where
  "lower_char c =
     (case map_of (zip ''ABCDEFGHIJKLMNOPQRSTUVWXYZ'' ''abcdefghijklmnopqrstuvwxyz'') c of
        None \<Rightarrow> c
      | Some l \<Rightarrow> l)"

text \<open>\<open>toLowerCase\<close>, on the ASCII letters: the module applies it to captures of
  patterns that match ASCII letters only.\<close>

definition toLowerCase :: "string \<Rightarrow> string" where
  "toLowerCase s = map lower_char s"

text \<open>\<open>parseInt\<close> of a capture of \<open>\d+\<close>: a non-empty run of decimal digits.\<close>

definition digit_value :: "char \<Rightarrow> int" where
  "digit_value c =
     (case map_of (zip ''0123456789'' [0, 1, 2, 3, 4, 5, 6, 7, 8, 9]) c of
        None \<Rightarrow> 0
      | Some v \<Rightarrow> v)"

definition parseInt :: "string \<Rightarrow> int" where
  "parseInt s = foldl (\<lambda>a c. 10 * a + digit_value c) 0 s"

text \<open>A literal under the \<open>i\<close> flag: character by character, ASCII letters in either
  case; the result is the input left after the literal.\<close>

fun lit_i :: "string \<Rightarrow> string \<Rightarrow> string option" where
  "lit_i [] rest = Some rest"
| "lit_i (p # ps) [] = None"
| "lit_i (p # ps) (c # cs) = (if lower_char c = lower_char p then lit_i ps cs else None)"

fun lit :: "string \<Rightarrow> string \<Rightarrow> string option" where
  "lit [] rest = Some rest"
| "lit (p # ps) [] = None"
| "lit (p # ps) (c # cs) = (if c = p then lit ps cs else None)"

text \<open>
  The regular expressions of the module, as syntax trees. \<open>LitI\<close> is a literal under
  the \<open>i\<close> flag (ASCII letters match in either case), \<open>Lit\<close> an exact literal,
  \<open>Star\<close> the greedy \<open>*\<close>, \<open>Lazy\<close> the reluctant \<open>*?\<close>, \<open>Opt\<close> the greedy
  \<open>?\<close>, \<open>Grp n\<close> the capture group number \<open>n\<close>, \<open>Bol\<close> and \<open>Eol\<close> the anchors
  \<open>^\<close> and \<open>$\<close> (no \<open>m\<close> flag).
\<close>

datatype rx =
    Lit string | LitI string | WS | Digit | Dot
  | Seq rx rx | Alt rx rx | Star rx | Lazy rx | Opt rx
  | Grp nat rx | Bol | Eol

type_synonym captures = "(nat \<times> string) list"

text \<open>
  A backtracking matcher: \<open>rx_ms n r (rest, caps)\<close> lists, in the order in which a
  backtracking engine tries them, the states after matching \<open>r\<close> at the head of
  \<open>rest\<close>; \<open>n\<close> is the length of the whole input. A repetition does not iterate on
  an empty match.
\<close>

function rx_ms :: "nat \<Rightarrow> rx \<Rightarrow> string \<times> captures \<Rightarrow> (string \<times> captures) list" where
  "rx_ms n (Lit l) (rest, caps) =
     (case lit l rest of None \<Rightarrow> [] | Some rest' \<Rightarrow> [(rest', caps)])"
| "rx_ms n (LitI l) (rest, caps) =
     (case lit_i l rest of None \<Rightarrow> [] | Some rest' \<Rightarrow> [(rest', caps)])"
| "rx_ms n WS (rest, caps) =
     (if 0 < ws_len rest then [(drop (ws_len rest) rest, caps)] else [])"
| "rx_ms n Digit (rest, caps) =
     (case rest of [] \<Rightarrow> [] | c # cs \<Rightarrow> if is_digit c then [(cs, caps)] else [])"
| "rx_ms n Dot (rest, caps) =
     (case rest of [] \<Rightarrow> [] | c # cs \<Rightarrow> if lt_len rest = 0 then [(cs, caps)] else [])"
| "rx_ms n (Seq a b) st = concat (map (rx_ms n b) (rx_ms n a st))"
| "rx_ms n (Alt a b) st = rx_ms n a st @ rx_ms n b st"
| "rx_ms n (Star a) st =
     concat (map (\<lambda>st'. if length (fst st') < length (fst st) then rx_ms n (Star a) st' else [])
                 (rx_ms n a st)) @ [st]"
| "rx_ms n (Lazy a) st =
     st # concat (map (\<lambda>st'. if length (fst st') < length (fst st) then rx_ms n (Lazy a) st' else [])
                      (rx_ms n a st))"
| "rx_ms n (Opt a) st = rx_ms n a st @ [st]"
| "rx_ms n (Grp k a) (rest, caps) =
     map (\<lambda>(rest', caps'). (rest', (k, take (length rest - length rest') rest) # caps'))
         (rx_ms n a (rest, caps))"
| "rx_ms n Bol (rest, caps) = (if length rest = n then [(rest, caps)] else [])"
| "rx_ms n Eol (rest, caps) = (if rest = [] then [(rest, caps)] else [])"
  by pat_completeness auto
termination
  by (relation "measures [\<lambda>(n, r, st). size r, \<lambda>(n, r, st). length (fst st)]") auto

text \<open>
  \<open>rx_exec r s\<close> is the first match of \<open>r\<close> in \<open>s\<close>, tried at every start position
  from the left: the start index, the input left after the match and the captures.
  \<open>String.prototype.match\<close> and \<open>RegExp.prototype.test\<close> (no \<open>g\<close> flag) read it,
  \<open>replace\<close> with the empty string cuts the match out.
\<close>

fun rx_search :: "nat \<Rightarrow> rx \<Rightarrow> string \<Rightarrow> nat \<Rightarrow> (nat \<times> string \<times> captures) option" where
  "rx_search n r s i =
     (case rx_ms n r (s, []) of
        st # _ \<Rightarrow> Some (i, st)
      | [] \<Rightarrow> (case s of [] \<Rightarrow> None | c # cs \<Rightarrow> rx_search n r cs (i + 1)))"

definition rx_exec :: "rx \<Rightarrow> string \<Rightarrow> (nat \<times> string \<times> captures) option" where
  "rx_exec r s = rx_search (length s) r s 0"

definition rx_match :: "rx \<Rightarrow> string \<Rightarrow> captures option" where
  "rx_match r s = map_option (\<lambda>(i, rest, caps). caps) (rx_exec r s)"

definition rx_test :: "rx \<Rightarrow> string \<Rightarrow> bool" where
  "rx_test r s = (rx_exec r s \<noteq> None)"

definition rx_delete :: "rx \<Rightarrow> string \<Rightarrow> string" where
  "rx_delete r s = (case rx_exec r s of None \<Rightarrow> s | Some (i, rest, caps) \<Rightarrow> take i s @ rest)"

text \<open>A capture group that did not take part in the match is \<open>undefined\<close>; the module
  only tests such a group for truth, where \<open>undefined\<close> and the empty string agree.\<close>

definition grp :: "captures \<Rightarrow> nat \<Rightarrow> string" where
  "grp caps k = (case map_of caps k of None \<Rightarrow> [] | Some v \<Rightarrow> v)"

definition Plus :: "rx \<Rightarrow> rx" where
  "Plus r = Seq r (Star r)"

fun seqs :: "rx list \<Rightarrow> rx" where
  "seqs [] = Lit []"
| "seqs [r] = r"
| "seqs (r # rs) = Seq r (seqs rs)"

fun alts :: "rx list \<Rightarrow> rx" where
  "alts [] = Lit []"
| "alts [r] = r"
| "alts (r # rs) = Alt r (alts rs)"

definition trim :: "string \<Rightarrow> string" where
  "trim s = rx_delete (Seq (Plus WS) Eol) (rx_delete (Seq Bol (Plus WS)) s)"

text \<open>
  \<open>Date.parse\<close> on the format of \<open>toISOString\<close>, \<open>YYYY-MM-DDTHH:mm:ss.sssZ\<close>, with
  legal field values; every other string is left to the host.
\<close>

definition re_iso :: rx where
  "re_iso = seqs [Bol, Grp 1 (seqs [Digit, Digit, Digit, Digit]), Lit ''-'',
                  Grp 2 (Seq Digit Digit), Lit ''-'', Grp 3 (Seq Digit Digit), Lit ''T'',
                  Grp 4 (Seq Digit Digit), Lit '':'', Grp 5 (Seq Digit Digit), Lit '':'',
                  Grp 6 (Seq Digit Digit), Lit ''.'', Grp 7 (seqs [Digit, Digit, Digit]),
                  Lit ''Z'', Eol]"

definition Date_parse :: "host \<Rightarrow> string \<Rightarrow> jsdate" where
  "Date_parse h s =
     (case rx_match re_iso s of
        None \<Rightarrow> Date_parse_other h s
      | Some c \<Rightarrow>
          let y = parseInt (grp c 1); mo = parseInt (grp c 2); d = parseInt (grp c 3);
              hh = parseInt (grp c 4); mi = parseInt (grp c 5); ss = parseInt (grp c 6);
              ms = parseInt (grp c 7); lp = leap_days y
          in if 1 \<le> mo \<and> mo \<le> 12 \<and> 1 \<le> d
                \<and> d \<le> month_start lp mo - month_start lp (mo - 1)
                \<and> mi \<le> 59 \<and> ss \<le> 59
                \<and> (hh \<le> 23 \<or> (hh = 24 \<and> mi = 0 \<and> ss = 0 \<and> ms = 0))
             then TimeClip (MakeDate (MakeDay y (mo - 1) d) (MakeTime hh mi ss ms))
             else Date_parse_other h s)"

section \<open>The time expression parser: \<open>parseTimeString\<close>\<close>

text \<open>
  The four patterns of \<open>parseTimeString\<close> (lines 326, 341, 362 and 388), all under
  the \<open>i\<close> flag and searched anywhere in the string.
\<close>

definition re_in :: rx where
  "re_in = seqs [LitI ''in'', Plus WS, Grp 1 (Plus Digit), Plus WS,
                 Grp 2 (alts [LitI ''minute'', LitI ''minutes'', LitI ''hour'',
                              LitI ''hours'', LitI ''day'', LitI ''days''])]"

definition re_clock :: "nat \<Rightarrow> rx list" where
  "re_clock k = [Plus WS, LitI ''at'', Plus WS, Grp k (Plus Digit),
                 Opt (Seq (Lit '':'') (Grp (k + 1) (Plus Digit))), Star WS,
                 Opt (Grp (k + 2) (Alt (LitI ''am'') (LitI ''pm'')))]"

definition re_tomorrow :: rx where
  "re_tomorrow = seqs (LitI ''tomorrow'' # re_clock 1)"

definition re_today :: rx where
  "re_today = seqs (LitI ''today'' # re_clock 1)"

definition re_dateTime :: rx where
  "re_dateTime = seqs ([Grp 1 (Seq Digit (Opt Digit)), Lit ''/'', Grp 2 (Seq Digit (Opt Digit)),
                        Opt (Seq (Lit ''/'') (Grp 3 (seqs [Digit, Digit, Digit, Digit])))]
                       @ re_clock 4)"

text \<open>The adjustment of the hour for \<open>am\<close> and \<open>pm\<close>, written out three times in the
  source (lines 351, 371 and 399); \<open>ampm\<close> is the lower-cased capture, empty for
  \<open>null\<close>.\<close>

definition adjust_hours :: "string \<Rightarrow> int \<Rightarrow> int" where
  "adjust_hours ampm hours =
     (if ampm = ''pm'' \<and> hours < 12 then hours + 12
      else if ampm = ''am'' \<and> hours = 12 then 0
      else hours)"

text \<open>
  Each block of \<open>parseTimeString\<close> either returns (\<open>Some r\<close>, where \<open>r\<close> is a date or
  \<open>None\<close> for \<open>null\<close>) or falls through to the next block (\<open>None\<close>). \<open>now\<close> is the
  clock reading \<open>new Date()\<close> of line 323.
\<close>

definition parse_in :: "int \<Rightarrow> string \<Rightarrow> jsdate option option" where
  "parse_in now timeString =
     (case rx_match re_in timeString of
        None \<Rightarrow> None
      | Some inMatch \<Rightarrow>
          let amount = parseInt (grp inMatch 1);
              unit = toLowerCase (grp inMatch 2)
          in if unit = ''minute'' \<or> unit = ''minutes''
             then Some (Some (TimeClip (now + amount * 60 * 1000)))
             else if unit = ''hour'' \<or> unit = ''hours''
             then Some (Some (TimeClip (now + amount * 60 * 60 * 1000)))
             else if unit = ''day'' \<or> unit = ''days''
             then Some (Some (TimeClip (now + amount * 24 * 60 * 60 * 1000)))
             else None)"

definition parse_tomorrow :: "host \<Rightarrow> int \<Rightarrow> string \<Rightarrow> jsdate option option" where
  "parse_tomorrow h now timeString =
     (case rx_match re_tomorrow timeString of
        None \<Rightarrow> None
      | Some tomorrowMatch \<Rightarrow>
          let tomorrow = Date_setDate h (Date now) (Date_getDate h now + 1);
              hours = parseInt (grp tomorrowMatch 1);
              minutes = (if grp tomorrowMatch 2 \<noteq> [] then parseInt (grp tomorrowMatch 2) else 0);
              ampm = toLowerCase (grp tomorrowMatch 3);
              hours = adjust_hours ampm hours
          in Some (Some (Date_setHours h tomorrow hours minutes 0 0)))"

definition parse_today :: "host \<Rightarrow> int \<Rightarrow> string \<Rightarrow> jsdate option option" where
  "parse_today h now timeString =
     (case rx_match re_today timeString of
        None \<Rightarrow> None
      | Some todayMatch \<Rightarrow>
          let hours = parseInt (grp todayMatch 1);
              minutes = (if grp todayMatch 2 \<noteq> [] then parseInt (grp todayMatch 2) else 0);
              ampm = toLowerCase (grp todayMatch 3);
              hours = adjust_hours ampm hours;
              today = Date_setHours h (Date now) hours minutes 0 0
          in if Date_le today (Date now) then Some None else Some (Some today))"

definition parse_dateTime :: "host \<Rightarrow> int \<Rightarrow> string \<Rightarrow> jsdate option option" where
  "parse_dateTime h now timeString =
     (case rx_match re_dateTime timeString of
        None \<Rightarrow> None
      | Some dateTimeMatch \<Rightarrow>
          let month = parseInt (grp dateTimeMatch 1) - 1;
              day = parseInt (grp dateTimeMatch 2);
              year = (if grp dateTimeMatch 3 \<noteq> [] then parseInt (grp dateTimeMatch 3)
                      else Date_getFullYear h now);
              hours = parseInt (grp dateTimeMatch 4);
              minutes = (if grp dateTimeMatch 5 \<noteq> [] then parseInt (grp dateTimeMatch 5) else 0);
              ampm = toLowerCase (grp dateTimeMatch 6);
              hours = adjust_hours ampm hours;
              date = Date_new h year month day hours minutes 0 0
          in if Date_le date (Date now) then Some None else Some (Some date))"

definition parse_direct :: "host \<Rightarrow> string \<Rightarrow> jsdate option" where
  "parse_direct h timeString =
     (case Date_parse h timeString of
        Date t \<Rightarrow> Some (Date t)
      | Invalid_Date \<Rightarrow> None)"

definition parseTimeString :: "host \<Rightarrow> int \<Rightarrow> string \<Rightarrow> jsdate option" where
  "parseTimeString h now timeString =
     (case parse_in now timeString of Some r \<Rightarrow> r | None \<Rightarrow>
      case parse_tomorrow h now timeString of Some r \<Rightarrow> r | None \<Rightarrow>
      case parse_today h now timeString of Some r \<Rightarrow> r | None \<Rightarrow>
      case parse_dateTime h now timeString of Some r \<Rightarrow> r | None \<Rightarrow>
      parse_direct h timeString)"

section \<open>The command parser: \<open>parseReminderCommand\<close>\<close>

record parsed_command =
  cmd_text :: string
  cmd_time :: jsdate
  cmd_recurring :: "string option"

definition re_prefix :: rx where
  "re_prefix = seqs [Bol, LitI ''/remind'', Plus WS]"

definition recurringPatterns :: "(rx \<times> string) list" where
  "recurringPatterns =
     [(seqs [Plus WS, LitI ''daily'', Eol], ''daily''),
      (seqs [Plus WS, LitI ''every'', Plus WS, LitI ''day'', Eol], ''daily''),
      (seqs [Plus WS, LitI ''weekly'', Eol], ''weekly''),
      (seqs [Plus WS, LitI ''every'', Plus WS, LitI ''week'', Eol], ''weekly''),
      (seqs [Plus WS, LitI ''monthly'', Eol], ''monthly''),
      (seqs [Plus WS, LitI ''every'', Plus WS, LitI ''month'', Eol], ''monthly'')]"

text \<open>The loop of lines 451 to 457: the first pattern that matches sets \<open>recurring\<close>
  and cuts the suffix out of \<open>content\<close>.\<close>

fun find_recurring :: "(rx \<times> string) list \<Rightarrow> string \<Rightarrow> string option \<times> string" where
  "find_recurring [] content = (None, content)"
| "find_recurring ((pattern, type) # ps) content =
     (if rx_test pattern content then (Some type, trim (rx_delete pattern content))
      else find_recurring ps content)"

definition re_toMatch :: rx where
  "re_toMatch = seqs [Bol, Grp 1 (Lazy Dot), Plus WS, Alt (LitI ''to'') (LitI ''about''),
                      Plus WS, Grp 2 (Star Dot), Eol]"

definition re_atMatch :: rx where
  "re_atMatch = seqs [Bol, Grp 1 (Lazy Dot), Plus WS, Alt (LitI ''at'') (LitI ''on''),
                      Plus WS, Grp 2 (Star Dot), Eol]"

definition parse_to :: "host \<Rightarrow> int \<Rightarrow> string option \<Rightarrow> string \<Rightarrow> parsed_command option" where
  "parse_to h now recurring cleanContent =
     (case rx_match re_toMatch cleanContent of
        None \<Rightarrow> None
      | Some toMatch \<Rightarrow>
          let timeString = trim (grp toMatch 1);
              reminderText = trim (grp toMatch 2)
          in case parseTimeString h now timeString of
               None \<Rightarrow> None
             | Some time \<Rightarrow>
                 Some \<lparr>cmd_text = reminderText, cmd_time = time, cmd_recurring = recurring\<rparr>)"

definition parse_at :: "host \<Rightarrow> int \<Rightarrow> string option \<Rightarrow> string \<Rightarrow> parsed_command option" where
  "parse_at h now recurring cleanContent =
     (case rx_match re_atMatch cleanContent of
        None \<Rightarrow> None
      | Some atMatch \<Rightarrow>
          let reminderText = trim (grp atMatch 1);
              timeString = trim (grp atMatch 2)
          in case parseTimeString h now timeString of
               None \<Rightarrow> None
             | Some time \<Rightarrow>
                 Some \<lparr>cmd_text = reminderText, cmd_time = time, cmd_recurring = recurring\<rparr>)"

definition parseReminderCommand :: "host \<Rightarrow> int \<Rightarrow> string \<Rightarrow> parsed_command option" where
  "parseReminderCommand h now text =
     (let content = trim (rx_delete re_prefix text);
          (recurring, cleanContent) = find_recurring recurringPatterns content
      in case parse_to h now recurring cleanContent of
           Some r \<Rightarrow> Some r
         | None \<Rightarrow> parse_at h now recurring cleanContent)"

section \<open>The reminder store and the timer table\<close>

text \<open>
  A reminder as \<open>createReminder\<close> builds it (line 229). The fields \<open>time\<close> and
  \<open>created\<close> hold what \<open>toISOString\<close> wrote: a valid time value, kept here as the
  number of milliseconds. \<open>recurring\<close> is a string or \<open>null\<close>.
  \<open>config/reminders.json\<close> maps a user id to an object that maps a reminder id to a
  reminder; an object is an association list in insertion order.
\<close>

type_synonym uid = string
type_synonym rid = string

record reminder =
  text' :: string
  time :: int
  created :: int
  completed :: bool
  recurring :: "string option"

type_synonym user_reminders = "(rid \<times> reminder) list"
type_synonym store = "(uid \<times> user_reminders) list"

datatype json_file = Missing | Unreadable | Content store

text \<open>A string or \<open>null\<close> in a condition: \<open>null\<close> and the empty string are false.\<close>

definition truthy :: "string option \<Rightarrow> bool" where
  "truthy v = (case v of None \<Rightarrow> False | Some x \<Rightarrow> x \<noteq> [])"

definition lookup_reminder :: "store \<Rightarrow> uid \<Rightarrow> rid \<Rightarrow> reminder option" where
  "lookup_reminder reminders userId reminderId =
     (case map_of reminders userId of
        None \<Rightarrow> None
      | Some userReminders \<Rightarrow> map_of userReminders reminderId)"

definition put_reminder :: "store \<Rightarrow> uid \<Rightarrow> rid \<Rightarrow> reminder \<Rightarrow> store" where
  "put_reminder reminders userId reminderId reminder =
     (case map_of reminders userId of
        None \<Rightarrow> reminders
      | Some userReminders \<Rightarrow>
          AList.update userId (AList.update reminderId reminder userReminders) reminders)"

text \<open>Lines 185 to 190: delete the reminder, and the user's entry when it is left
  empty.\<close>

definition remove_reminder :: "store \<Rightarrow> uid \<Rightarrow> rid \<Rightarrow> store" where
  "remove_reminder reminders userId reminderId =
     (case map_of reminders userId of
        None \<Rightarrow> reminders
      | Some userReminders \<Rightarrow>
          let userReminders' = AList.delete reminderId userReminders in
          if length userReminders' = 0 then AList.delete userId reminders
          else AList.update userId userReminders' reminders)"

text \<open>
  A job of node-schedule, made by \<open>schedule.scheduleJob(date, callback)\<close>: the date,
  what the callback of line 70 has captured (\<open>userId\<close>, \<open>reminderId\<close> and the
  \<open>reminder\<close> object) and whether \<open>cancel()\<close> was called. \<open>scheduleJob\<close> returns
  \<open>null\<close> for a date before the library's own reading of the clock, \<open>now\<close>.
\<close>

record job =
  job_time :: int
  job_userId :: uid
  job_reminderId :: rid
  job_reminder :: reminder
  job_cancelled :: bool

definition scheduleJob :: "int \<Rightarrow> int \<Rightarrow> uid \<Rightarrow> rid \<Rightarrow> reminder \<Rightarrow> job option" where
  "scheduleJob now reminderTime userId reminderId reminder =
     (if now \<le> reminderTime
      then Some \<lparr>job_time = reminderTime, job_userId = userId, job_reminderId = reminderId,
                  job_reminder = reminder, job_cancelled = False\<rparr>
      else None)"

text \<open>\<open>scheduledReminders\<close>: a \<open>Map\<close> from user id to a \<open>Map\<close> from reminder id to
  the job (or \<open>null\<close>).\<close>

type_synonym timers = "uid \<rightharpoonup> (rid \<rightharpoonup> job option)"

definition has_job :: "timers \<Rightarrow> uid \<Rightarrow> rid \<Rightarrow> bool" where
  "has_job tbl userId reminderId =
     (case tbl userId of None \<Rightarrow> False | Some m \<Rightarrow> m reminderId \<noteq> None)"

text \<open>The guarded \<open>cancel()\<close> of lines 176 and 193 (with \<open>delete\<close> on line 195 when
  \<open>del\<close> is set). Calling \<open>cancel\<close> on \<open>null\<close> throws: the result is \<open>None\<close>.\<close>

definition cancel_job :: "bool \<Rightarrow> timers \<Rightarrow> uid \<Rightarrow> rid \<Rightarrow> timers option" where
  "cancel_job del tbl userId reminderId =
     (case tbl userId of
        None \<Rightarrow> Some tbl
      | Some m \<Rightarrow>
          (case m reminderId of
             None \<Rightarrow> Some tbl
           | Some None \<Rightarrow> None
           | Some (Some j) \<Rightarrow>
               if del then Some (tbl(userId \<mapsto> m(reminderId := None)))
               else Some (tbl(userId \<mapsto> m(reminderId \<mapsto> Some (j\<lparr>job_cancelled := True\<rparr>))))))"

text \<open>A live timer for \<open>(userId, reminderId)\<close> at the instant \<open>t\<close>.\<close>

definition armed :: "timers \<Rightarrow> uid \<Rightarrow> rid \<Rightarrow> int \<Rightarrow> bool" where
  "armed tbl userId reminderId t =
     (case tbl userId of
        None \<Rightarrow> False
      | Some m \<Rightarrow>
          (case m reminderId of
             Some (Some j) \<Rightarrow> \<not> job_cancelled j \<and> job_time j = t
           | _ \<Rightarrow> False))"

section \<open>The process state\<close>

text \<open>
  \<open>user_data\<close> is what \<open>getUserData\<close> returns (\<open>null\<close> for a missing or unreadable
  profile); \<open>sent\<close> collects the messages that \<open>sock.sendMessage\<close> delivered;
  \<open>console\<close> the output of \<open>console.log\<close> and \<open>console.error\<close>, one constructor per
  message of the source; \<open>fs_writable\<close> tells whether \<open>fs.writeJson\<close> succeeds. The
  socket is the predicate telling whether \<open>sendMessage\<close> resolves (or throws).
  Each \<open>async\<close> function is run to its end without interleaving.

  The system clock is the sequence \<open>clock\<close> of the values that its successive readings
  return, and \<open>ticks\<close> counts the readings taken so far: every \<open>new Date()\<close> and
  \<open>Date.now()\<close>, also the one inside node-schedule, returns \<open>now_of w\<close> and moves on
  to the next value (\<open>tick\<close>). Two readings in a row may or may not return the same
  millisecond.
\<close>

record userData =
  companionName :: "string option"
  userName :: "string option"

datatype log =
    Initializing | Initialized | Error_initializing
  | Skipping_past rid uid | Scheduled rid uid int
  | User_not_found uid | Sent_notification uid rid | Error_sending uid rid
  | Error_marking rid uid | Error_creating uid

type_synonym sock = "uid \<Rightarrow> string \<Rightarrow> bool"

record world =
  reminders_json :: json_file
  fs_writable :: bool
  scheduledReminders :: timers
  user_data :: "uid \<Rightarrow> userData option"
  sent :: "(uid \<times> string) list"
  console :: "log list"
  clock :: "nat \<Rightarrow> int"
  ticks :: nat

definition now_of :: "world \<Rightarrow> int" where
  "now_of w = clock w (ticks w)"

definition tick :: "world \<Rightarrow> world" where
  "tick w = w\<lparr>ticks := ticks w + 1\<rparr>"

definition console_log :: "log \<Rightarrow> world \<Rightarrow> world" where
  "console_log e w = w\<lparr>console := console w @ [e]\<rparr>"

section \<open>The scheduler: \<open>scheduleReminder\<close> and \<open>initializeReminderSystem\<close>\<close>

definition set_job :: "timers \<Rightarrow> uid \<Rightarrow> rid \<Rightarrow> job option \<Rightarrow> timers" where
  "set_job tbl userId reminderId j =
     (let m = (case tbl userId of None \<Rightarrow> Map.empty | Some m \<Rightarrow> m)
      in tbl(userId \<mapsto> m(reminderId \<mapsto> j)))"

text \<open>\<open>scheduleReminder\<close> reads the clock for its guard (line 64); \<open>scheduleJob\<close>
  (line 70) reads it again.\<close>

definition scheduleReminder :: "world \<Rightarrow> uid \<Rightarrow> rid \<Rightarrow> reminder \<Rightarrow> world" where
  "scheduleReminder w userId reminderId reminder =
     (let reminderTime = time reminder;
          now = now_of w;
          w1 = tick w
      in if reminderTime < now then console_log (Skipping_past reminderId userId) w1
         else
           let j = scheduleJob (now_of w1) reminderTime userId reminderId reminder;
               w2 = tick w1
           in console_log (Scheduled reminderId userId reminderTime)
                (w2\<lparr>scheduledReminders := set_job (scheduledReminders w2) userId reminderId j\<rparr>))"

text \<open>The body of the inner loop (lines 33 to 41): a completed reminder is skipped
  without a look at the clock, the others after the reading of line 36.\<close>

definition schedule_one :: "uid \<Rightarrow> world \<Rightarrow> rid \<times> reminder \<Rightarrow> world" where
  "schedule_one userId w p =
     (case p of (reminderId, reminder) \<Rightarrow>
        if completed reminder then w
        else
          let now = now_of w;
              w1 = tick w
          in if time reminder < now then w1
             else scheduleReminder w1 userId reminderId reminder)"

text \<open>The two loops of lines 29 to 43, in the order of the association lists.\<close>

definition schedule_user :: "uid \<Rightarrow> world \<Rightarrow> user_reminders \<Rightarrow> world" where
  "schedule_user userId w userReminders = foldl (schedule_one userId) w userReminders"

definition schedule_all :: "world \<Rightarrow> store \<Rightarrow> world" where
  "schedule_all w reminders =
     foldl (\<lambda>w (userId, userReminders). schedule_user userId w userReminders) w reminders"

definition initializeReminderSystem :: "world \<Rightarrow> world" where
  "initializeReminderSystem w0 =
     (let w = console_log Initializing w0 in
      if reminders_json w = Missing \<and> \<not> fs_writable w then console_log Error_initializing w
      else
        let w = (if reminders_json w = Missing then w\<lparr>reminders_json := Content []\<rparr> else w) in
        case reminders_json w of
          Content reminders \<Rightarrow> console_log Initialized (schedule_all w reminders)
        | _ \<Rightarrow> console_log Error_initializing w)"

section \<open>The fire step: \<open>sendReminderNotification\<close> and \<open>markReminderAsCompleted\<close>\<close>

text \<open>The \<open>switch\<close> of lines 153 to 170: the next occurrence, or \<open>None\<close> when
  \<open>nextTime\<close> stays \<open>undefined\<close> in the \<open>default\<close> branch.\<close>

definition nextTime :: "host \<Rightarrow> string \<Rightarrow> int \<Rightarrow> jsdate option" where
  "nextTime h recurring' currentTime =
     (if recurring' = ''daily''
      then Some (Date_setDate h (Date currentTime) (Date_getDate h currentTime + 1))
      else if recurring' = ''weekly''
      then Some (Date_setDate h (Date currentTime) (Date_getDate h currentTime + 7))
      else if recurring' = ''monthly''
      then Some (Date_setMonth h (Date currentTime) (Date_getMonth h currentTime + 1))
      else None)"

text \<open>\<open>fs.writeJson\<close> at the end of \<open>markReminderAsCompleted\<close> (line 200), inside its
  \<open>try\<close>.\<close>

definition save_marked :: "world \<Rightarrow> uid \<Rightarrow> rid \<Rightarrow> store \<Rightarrow> world" where
  "save_marked w userId reminderId reminders =
     (if fs_writable w then w\<lparr>reminders_json := Content reminders\<rparr>
      else console_log (Error_marking reminderId userId) w)"

definition markReminderAsCompleted :: "host \<Rightarrow> world \<Rightarrow> uid \<Rightarrow> rid \<Rightarrow> string option \<Rightarrow> world" where
  "markReminderAsCompleted h w userId reminderId recurring' =
     (case reminders_json w of
        Content reminders \<Rightarrow>
          (case lookup_reminder reminders userId reminderId of
             None \<Rightarrow> w
           | Some reminder \<Rightarrow>
               if truthy recurring' then
                 (case nextTime h (the recurring') (time reminder) of
                    None \<Rightarrow>
                      save_marked w userId reminderId
                        (put_reminder reminders userId reminderId (reminder\<lparr>completed := True\<rparr>))
                  | Some Invalid_Date \<Rightarrow> console_log (Error_marking reminderId userId) w
                  | Some (Date t) \<Rightarrow>
                      (case cancel_job False (scheduledReminders w) userId reminderId of
                         None \<Rightarrow> console_log (Error_marking reminderId userId) w
                       | Some tbl \<Rightarrow>
                           save_marked (w\<lparr>scheduledReminders := tbl\<rparr>) userId reminderId
                             (put_reminder reminders userId reminderId (reminder\<lparr>time := t\<rparr>))))
               else
                 (case cancel_job True (scheduledReminders w) userId reminderId of
                    None \<Rightarrow> console_log (Error_marking reminderId userId) w
                  | Some tbl \<Rightarrow>
                      save_marked (w\<lparr>scheduledReminders := tbl\<rparr>) userId reminderId
                        (remove_reminder reminders userId reminderId)))
      | _ \<Rightarrow> console_log (Error_marking reminderId userId) w)"

text \<open>The message of lines 105 to 117. The alarm clock is U+23F0, the dizzy symbol
  U+1F4AB; an absent \<open>userName\<close> prints as \<open>undefined\<close>.\<close>

definition alarm_clock :: string where
  "alarm_clock = [CHR 0xE2, CHR 0x8F, CHR 0xB0]"

definition dizzy :: string where
  "dizzy = [CHR 0xF0, CHR 0x9F, CHR 0x92, CHR 0xAB]"

definition nl :: string where
  "nl = [CHR 0x0A]"

definition to_str :: "string option \<Rightarrow> string" where
  "to_str v = (case v of None \<Rightarrow> ''undefined'' | Some x \<Rightarrow> x)"

definition reminder_message :: "userData \<Rightarrow> reminder \<Rightarrow> string" where
  "reminder_message ud reminder =
     alarm_clock @ '' *REMINDER* '' @ alarm_clock @ nl @ nl
     @ (if truthy (companionName ud)
        then ''Hey '' @ to_str (userName ud) @ '', it's '' @ to_str (companionName ud)
             @ '' here! '' @ dizzy @ nl @ nl
        else [])
     @ ''You asked me to remind you about:'' @ nl @ ''*'' @ text' reminder @ ''*''
     @ (if truthy (recurring reminder)
        then nl @ nl @ ''This is a recurring reminder ('' @ to_str (recurring reminder) @ '').''
        else [])"

definition sendReminderNotification :: "host \<Rightarrow> sock \<Rightarrow> world \<Rightarrow> uid \<Rightarrow> rid \<Rightarrow> reminder \<Rightarrow> world" where
  "sendReminderNotification h sock w userId reminderId reminder =
     (case user_data w userId of
        None \<Rightarrow> console_log (User_not_found userId) w
      | Some ud \<Rightarrow>
          let message = reminder_message ud reminder in
          if sock userId message then
            console_log (Sent_notification userId reminderId)
              (markReminderAsCompleted h (w\<lparr>sent := sent w @ [(userId, message)]\<rparr>)
                 userId reminderId (recurring reminder))
          else console_log (Error_sending userId reminderId) w)"

text \<open>The callback of a job (line 70), run when its timer fires.\<close>

definition fire :: "host \<Rightarrow> sock \<Rightarrow> world \<Rightarrow> job \<Rightarrow> world" where
  "fire h sock w j =
     sendReminderNotification h sock w (job_userId j) (job_reminderId j) (job_reminder j)"

section \<open>Creation: \<open>createReminder\<close>\<close>

text \<open>\<open>Date.now().toString()\<close>: the decimal digits of the clock reading.\<close>

function digits :: "int \<Rightarrow> string" where
  "digits n = (if n < 10 then [char_of (48 + n)] else digits (n div 10) @ [char_of (48 + n mod 10)])"
  by pat_completeness auto
termination
  by (relation "measure nat") auto

definition Number_toString :: "int \<Rightarrow> string" where
  "Number_toString i = (if i < 0 then ''-'' @ digits (- i) else digits i)"

text \<open>\<open>createReminder\<close> reads the clock for the id (line 226) and again for
  \<open>created\<close> (line 232). \<open>time.toISOString()\<close> (line 231) throws on an invalid date;
  like a failing read or write of the file, that ends in the \<open>catch\<close> of line 245 and
  the result \<open>null\<close>.\<close>

definition createReminder :: "world \<Rightarrow> uid \<Rightarrow> string \<Rightarrow> jsdate \<Rightarrow> string option \<Rightarrow> rid option \<times> world" where
  "createReminder w userId text time' recurring' =
     (case reminders_json w of
        Content reminders0 \<Rightarrow>
          let reminders = (if map_of reminders0 userId = None
                           then AList.update userId [] reminders0 else reminders0);
              reminderId = Number_toString (now_of w);
              w1 = tick w
          in (case time' of
                Invalid_Date \<Rightarrow> (None, console_log (Error_creating userId) w1)
              | Date t \<Rightarrow>
                  let reminder = \<lparr>text' = text, time = t, created = now_of w1,
                                   completed = False, recurring = recurring'\<rparr>;
                      w2 = tick w1;
                      reminders = put_reminder reminders userId reminderId reminder
                  in if fs_writable w2
                     then (Some reminderId,
                           scheduleReminder (w2\<lparr>reminders_json := Content reminders\<rparr>)
                             userId reminderId reminder)
                     else (None, console_log (Error_creating userId) w2))
      | _ \<Rightarrow> (None, console_log (Error_creating userId) w))"

section \<open>Observations and concrete states\<close>

text \<open>What the properties below read off a state: the content of the file, the number
  of reminders of a user, the job of a reminder, and whether each key occurs once in
  every object of the file (as in any JSON object).\<close>

definition the_store :: "world \<Rightarrow> store" where
  "the_store w = (case reminders_json w of Content reminders \<Rightarrow> reminders | _ \<Rightarrow> [])"

definition count_reminders :: "store \<Rightarrow> uid \<Rightarrow> nat" where
  "count_reminders reminders userId =
     (case map_of reminders userId of None \<Rightarrow> 0 | Some userReminders \<Rightarrow> length userReminders)"

definition the_job :: "world \<Rightarrow> uid \<Rightarrow> rid \<Rightarrow> job option" where
  "the_job w userId reminderId =
     (case scheduledReminders w userId of
        None \<Rightarrow> None
      | Some m \<Rightarrow> (case m reminderId of Some (Some j) \<Rightarrow> Some j | _ \<Rightarrow> None))"

definition wf_store :: "store \<Rightarrow> bool" where
  "wf_store reminders =
     (distinct (map fst reminders)
      \<and> list_all (\<lambda>(userId, userReminders). distinct (map fst userReminders)) reminders)"

text \<open>
  The start-up reads the clock several times. \<open>readings_within w w' lo hi\<close>: every
  reading taken on the way from the state \<open>w\<close> to the state \<open>w'\<close> lies between \<open>lo\<close> and
  \<open>hi\<close>. \<open>touched w w' rem\<close>: the reminder is not completed and one of these readings is
  not after its due time.
\<close>

definition readings_within :: "world \<Rightarrow> world \<Rightarrow> int \<Rightarrow> int \<Rightarrow> bool" where
  "readings_within w w' lo hi =
     (\<forall>n. ticks w \<le> n \<and> n < ticks w' \<longrightarrow> lo \<le> clock w n \<and> clock w n \<le> hi)"

definition touched :: "world \<Rightarrow> world \<Rightarrow> reminder \<Rightarrow> bool" where
  "touched w w' rem =
     (\<not> completed rem \<and> (\<exists>n. ticks w \<le> n \<and> n < ticks w' \<and> clock w n \<le> time rem))"

text \<open>
  The concrete runs use a host on UTC whose \<open>Date.parse\<close> rejects everything outside
  the specified format, a socket that delivers and one that fails, and a process that has
  just started with an empty file: every user has a profile, and the clock stands at
  2024-01-10T08:00:00Z (1704873600000) for all the readings of the calls that follow.
  User \<open>u1\<close> creates the reminder \<open>call mom\<close> for 09:00:00Z (1704877200000);
  \<open>j_created\<close> is the job that \<open>createReminder\<close> registers for it.
\<close>

definition utc_host :: host where
  "utc_host = \<lparr>LocalTZA = (\<lambda>t isUTC. 0), Date_parse_other = (\<lambda>_. Invalid_Date)\<rparr>"

definition sock_up :: sock where
  "sock_up = (\<lambda>userId message. True)"

definition sock_down :: sock where
  "sock_down = (\<lambda>userId message. False)"

definition sam :: userData where
  "sam = \<lparr>companionName = Some ''Mia'', userName = Some ''Sam''\<rparr>"

definition w_start :: world where
  "w_start = \<lparr>reminders_json = Content [], fs_writable = True, scheduledReminders = Map.empty,
               user_data = (\<lambda>userId. Some sam), sent = [], console = [],
               clock = (\<lambda>n. 1704873600000), ticks = 0\<rparr>"

definition call_mom :: "string option \<Rightarrow> reminder" where
  "call_mom rc = \<lparr>text' = ''call mom'', time = 1704877200000, created = 1704873600000,
                   completed = False, recurring = rc\<rparr>"

definition w_created :: "string option \<Rightarrow> world" where
  "w_created rc = snd (createReminder w_start ''u1'' ''call mom'' (Date 1704877200000) rc)"

definition j_created :: "string option \<Rightarrow> job" where
  "j_created rc = \<lparr>job_time = 1704877200000, job_userId = ''u1'',
                    job_reminderId = ''1704873600000'', job_reminder = call_mom rc,
                    job_cancelled = False\<rparr>"

text \<open>The file edited while the timer is pending, and a monthly reminder due on
  2024-01-31T09:00:00Z.\<close>

definition w_edited :: world where
  "w_edited = (w_created None)\<lparr>reminders_json :=
      Content [(''u1'', [(''1704873600000'', (call_mom None)\<lparr>text' := ''buy milk''\<rparr>)])]\<rparr>"



text \<open>
  A process that starts at 2024-01-10T09:00:00Z (1704877200000) with the reminder
  \<open>call mom\<close>, due at that very millisecond, in its file, the clock standing still; and
  one that starts at the same time with a clock that moves on by a millisecond at each
  reading and with four reminders in its file: \<open>d\<close> due one millisecond after the start,
  \<open>a\<close> due in an hour, \<open>b\<close> an hour overdue and \<open>c\<close> completed.
\<close>

definition w_nine :: world where
  "w_nine = w_start\<lparr>reminders_json := Content [(''u1'', [(''1704873600000'', call_mom None)])],
                     clock := (\<lambda>n. 1704877200000)\<rparr>"

definition restart_store :: store where
  "restart_store =
     [(''u1'', [(''d'', (call_mom None)\<lparr>time := 1704877200001\<rparr>),
               (''a'', (call_mom None)\<lparr>time := 1704880800000\<rparr>),
               (''b'', (call_mom None)\<lparr>time := 1704873600000\<rparr>),
               (''c'', (call_mom None)\<lparr>time := 1704880800000, completed := True\<rparr>)])]"

definition w_restart :: world where
  "w_restart = w_start\<lparr>reminders_json := Content restart_store,
                        clock := (\<lambda>n. 1704877200000 + int n)\<rparr>"


section \<open>Calendar arithmetic\<close>




















lemma TimeClip_Date: "TimeClip t = Date t' \<Longrightarrow> t' = t"
  by (simp add: TimeClip_def split: if_splits)






lemma nextTime_cases:
  "nextTime h rc t = None \<longleftrightarrow> rc \<noteq> ''daily'' \<and> rc \<noteq> ''weekly'' \<and> rc \<noteq> ''monthly''"
  by (simp add: nextTime_def)

section \<open>The store, the timer table and the fire step\<close>

lemma length_update_present: "map_of al k = Some x \<Longrightarrow> length (AList.update k v al) = length al"
  by (induction al) (auto split: if_splits)

lemma lookup_put_reminder:
  "lookup_reminder reminders u r = Some x \<Longrightarrow>
   lookup_reminder (put_reminder reminders u r v) u r = Some v"
  by (auto simp: lookup_reminder_def put_reminder_def AList.update_conv' split: option.splits)

lemma count_put_reminder:
  "lookup_reminder reminders u r = Some x \<Longrightarrow>
   count_reminders (put_reminder reminders u r v) u = count_reminders reminders u"
  by (auto simp: lookup_reminder_def put_reminder_def count_reminders_def AList.update_conv'
      length_update_present split: option.splits)

lemma lookup_remove_reminder: "lookup_reminder (remove_reminder reminders u r) u r = None"
  by (auto simp: lookup_reminder_def remove_reminder_def AList.update_conv' AList.delete_conv'
      Let_def split: option.splits)

lemma cancel_job_not_armed:
  "cancel_job del tbl u r = Some tbl' \<Longrightarrow> \<not> armed tbl' u r t"
  by (auto simp: cancel_job_def armed_def split: option.splits if_splits)

lemma mark_recurring:
  assumes "reminders_json w = Content reminders"
    and "lookup_reminder reminders u r = Some rem"
    and "truthy (Some rc)"
    and "nextTime h rc (time rem) = Some (Date t')"
    and "cancel_job False (scheduledReminders w) u r = Some tbl"
    and "fs_writable w"
  shows "markReminderAsCompleted h w u r (Some rc) =
           w\<lparr>scheduledReminders := tbl,
              reminders_json := Content (put_reminder reminders u r (rem\<lparr>time := t'\<rparr>))\<rparr>"
  using assms by (simp add: markReminderAsCompleted_def save_marked_def)

lemma mark_unrecognized:
  assumes "reminders_json w = Content reminders"
    and "lookup_reminder reminders u r = Some rem"
    and "truthy (Some rc)"
    and "nextTime h rc (time rem) = None"
    and "fs_writable w"
  shows "markReminderAsCompleted h w u r (Some rc) =
           w\<lparr>reminders_json := Content (put_reminder reminders u r (rem\<lparr>completed := True\<rparr>))\<rparr>"
  using assms by (simp add: markReminderAsCompleted_def save_marked_def)

lemma mark_non_recurring:
  assumes "reminders_json w = Content reminders"
    and "lookup_reminder reminders u r = Some rem"
    and "\<not> truthy rc"
    and "cancel_job True (scheduledReminders w) u r = Some tbl"
    and "fs_writable w"
  shows "markReminderAsCompleted h w u r rc =
           w\<lparr>scheduledReminders := tbl,
              reminders_json := Content (remove_reminder reminders u r)\<rparr>"
  using assms by (simp add: markReminderAsCompleted_def save_marked_def)

lemma mark_absent:
  assumes "reminders_json w = Content reminders"
    and "lookup_reminder reminders u r = None"
  shows "markReminderAsCompleted h w u r rc = w"
  using assms by (simp add: markReminderAsCompleted_def)

lemma mark_sent: "sent (markReminderAsCompleted h w u r rc) = sent w"
  by (simp add: markReminderAsCompleted_def save_marked_def console_log_def
      split: json_file.splits option.splits jsdate.splits)

lemma send_delivered:
  assumes "user_data w u = Some ud" and "sock u (reminder_message ud rem)"
  shows "sendReminderNotification h sock w u r rem =
           console_log (Sent_notification u r)
             (markReminderAsCompleted h (w\<lparr>sent := sent w @ [(u, reminder_message ud rem)]\<rparr>)
                u r (recurring rem))"
  using assms by (simp add: sendReminderNotification_def Let_def)

lemma send_failed:
  assumes "user_data w u = Some ud" and "\<not> sock u (reminder_message ud rem)"
  shows "sendReminderNotification h sock w u r rem = console_log (Error_sending u r) w"
  using assms by (simp add: sendReminderNotification_def Let_def)

lemma send_non_recurring_deleted:
  assumes "user_data w userId = Some ud"
    and "sock userId (reminder_message ud reminder)"
    and "\<not> truthy (recurring reminder)"
    and "reminders_json w = Content reminders"
    and "cancel_job True (scheduledReminders w) userId reminderId \<noteq> None"
    and "fs_writable w"
  shows "\<exists>reminders'.
           reminders_json (sendReminderNotification h sock w userId reminderId reminder)
             = Content reminders'
           \<and> lookup_reminder reminders' userId reminderId = None"
proof -
  from assms(5) obtain tbl where
    tbl: "cancel_job True (scheduledReminders w) userId reminderId = Some tbl" by auto
  define w1 where "w1 = w\<lparr>sent := sent w @ [(userId, reminder_message ud reminder)]\<rparr>"
  have s: "sendReminderNotification h sock w userId reminderId reminder =
             console_log (Sent_notification userId reminderId)
               (markReminderAsCompleted h w1 userId reminderId (recurring reminder))"
    using send_delivered [where sock = sock and h = h and r = reminderId, OF assms(1,2)]
    by (simp add: w1_def)
  show ?thesis
  proof (cases "lookup_reminder reminders userId reminderId")
    case None
    have "markReminderAsCompleted h w1 userId reminderId (recurring reminder) = w1"
      by (rule mark_absent [OF _ None]) (simp add: w1_def assms(4))
    then show ?thesis
      unfolding s using None by (simp add: console_log_def w1_def assms(4))
  next
    case (Some stored)
    have "markReminderAsCompleted h w1 userId reminderId (recurring reminder) =
            w1\<lparr>scheduledReminders := tbl,
               reminders_json := Content (remove_reminder reminders userId reminderId)\<rparr>"
      by (rule mark_non_recurring [OF _ Some assms(3)]) (simp_all add: w1_def assms(4,6) tbl)
    then show ?thesis
      unfolding s by (simp add: console_log_def lookup_remove_reminder)
  qed
qed

lemma send_non_recurring_writes:
  assumes "\<not> truthy (recurring reminder)"
  shows "reminders_json (sendReminderNotification h sock w userId reminderId reminder)
           = reminders_json w
         \<or> (\<exists>reminders. reminders_json w = Content reminders
              \<and> reminders_json (sendReminderNotification h sock w userId reminderId reminder)
                  = Content (remove_reminder reminders userId reminderId))"
  using assms
  by (simp add: sendReminderNotification_def markReminderAsCompleted_def save_marked_def
      console_log_def Let_def split: option.splits json_file.splits)

text \<open>Arming, and the timers that the two loops of the start-up leave behind: what
  one round of the inner loop reads, arms and prints, then the same for the inner loop
  and for the outer one.\<close>

lemma armed_set_job:
  "armed (set_job tbl u r j) u' r' t =
     (if u' = u \<and> r' = r
      then (case j of None \<Rightarrow> False | Some j' \<Rightarrow> \<not> job_cancelled j' \<and> job_time j' = t)
      else armed tbl u' r' t)"
  by (auto simp: armed_def set_job_def Let_def split: option.splits)

lemma scheduleReminder_past:
  "time rem < now_of w \<Longrightarrow>
   scheduledReminders (scheduleReminder w u r rem) = scheduledReminders w"
  by (simp add: scheduleReminder_def console_log_def tick_def Let_def)

lemma armed_scheduleReminder:
  "now_of w \<le> time rem \<Longrightarrow>
   armed (scheduledReminders (scheduleReminder w u r rem)) u' r' t =
     (if u' = u \<and> r' = r then clock w (ticks w + 1) \<le> time rem \<and> t = time rem
      else armed (scheduledReminders w) u' r' t)"
  by (auto simp: scheduleReminder_def scheduleJob_def console_log_def tick_def now_of_def
      Let_def armed_set_job)

lemma schedule_one_clock:
  "clock (schedule_one u w p) = clock w" "ticks w \<le> ticks (schedule_one u w p)"
  by (auto simp: schedule_one_def scheduleReminder_def console_log_def tick_def Let_def
      split: prod.splits)

lemma schedule_one_other:
  "(u', r') \<noteq> (u, r) \<Longrightarrow>
   armed (scheduledReminders (schedule_one u w (r, rem))) u' r' t
     = armed (scheduledReminders w) u' r' t"
  by (auto simp: schedule_one_def scheduleReminder_def console_log_def tick_def Let_def
      armed_set_job)

lemma schedule_one_armed:
  "armed (scheduledReminders (schedule_one u w (r, rem))) u r t \<Longrightarrow>
   armed (scheduledReminders w) u r t
   \<or> (touched w (schedule_one u w (r, rem)) rem \<and> t = time rem)"
  by (auto simp: schedule_one_def scheduleReminder_def scheduleJob_def console_log_def tick_def
      now_of_def Let_def armed_set_job touched_def split: if_splits
      intro!: exI [of _ "ticks w"])

lemma schedule_one_arms:
  assumes c: "\<not> completed rem"
    and le: "\<forall>n. ticks w \<le> n \<and> n < ticks (schedule_one u w (r, rem)) \<longrightarrow> clock w n \<le> time rem"
  shows "armed (scheduledReminders (schedule_one u w (r, rem))) u r (time rem)"
proof -
  let ?w' = "schedule_one u w (r, rem)"
  have 0: "clock w (ticks w) \<le> time rem"
  proof -
    have "ticks w < ticks ?w'"
      using c by (auto simp: schedule_one_def scheduleReminder_def console_log_def tick_def Let_def)
    with le show ?thesis by simp
  qed
  have 1: "clock w (ticks w + 1) \<le> time rem"
  proof -
    have "ticks w + 1 < ticks ?w'"
      using c 0
      by (auto simp: schedule_one_def scheduleReminder_def console_log_def tick_def now_of_def
          Let_def)
    with le show ?thesis by simp
  qed
  have 2: "clock w (ticks w + 2) \<le> time rem"
  proof -
    have "ticks w + 2 < ticks ?w'"
      using c 0 1
      by (auto simp: schedule_one_def scheduleReminder_def console_log_def tick_def now_of_def
          Let_def)
    with le show ?thesis by simp
  qed
  from 0 1 2 c show ?thesis
    by (simp add: schedule_one_def now_of_def tick_def Let_def armed_scheduleReminder)
qed

lemma schedule_one_console:
  "e \<in> set (console (schedule_one u w (r, rem))) \<Longrightarrow>
   e \<in> set (console w)
   \<or> (touched w (schedule_one u w (r, rem)) rem
      \<and> (e = Skipping_past r u \<or> e = Scheduled r u (time rem)))"
  by (auto simp: schedule_one_def scheduleReminder_def console_log_def tick_def
      now_of_def Let_def touched_def split: if_splits intro!: exI [of _ "ticks w"])

lemma readings_within_tail:
  "readings_within w w'' lo hi \<Longrightarrow> clock w1 = clock w \<Longrightarrow> ticks w \<le> ticks w1 \<Longrightarrow>
   readings_within w1 w'' lo hi"
  by (simp add: readings_within_def)

lemma readings_within_head:
  "readings_within w w'' lo hi \<Longrightarrow> ticks w1 \<le> ticks w'' \<Longrightarrow> readings_within w w1 lo hi"
  by (simp add: readings_within_def)

lemma touched_lo:
  "touched w w1 rem \<Longrightarrow> readings_within w w1 lo hi \<Longrightarrow> \<not> completed rem \<and> lo \<le> time rem"
  by (fastforce simp: touched_def readings_within_def)

lemma schedule_user_Cons:
  "schedule_user u w (p # rs) = schedule_user u (schedule_one u w p) rs"
  by (simp add: schedule_user_def)

lemma schedule_user_clock:
  "clock (schedule_user u w rs) = clock w \<and> ticks w \<le> ticks (schedule_user u w rs)"
proof (induction rs arbitrary: w)
  case Nil
  show ?case by (simp add: schedule_user_def)
next
  case (Cons p rs)
  from Cons.IH [where w = "schedule_one u w p"]
    schedule_one_clock [where u = u and w = w and p = p]
  show ?case by (simp add: schedule_user_Cons)
qed

lemma schedule_user_other:
  "u' \<noteq> u \<or> r \<notin> fst ` set rs \<Longrightarrow>
   armed (scheduledReminders (schedule_user u w rs)) u' r t = armed (scheduledReminders w) u' r t"
proof (induction rs arbitrary: w)
  case Nil
  show ?case by (simp add: schedule_user_def)
next
  case (Cons p rs)
  obtain r0 rem0 where p: "p = (r0, rem0)" by (cases p)
  from Cons.prems have "(u', r) \<noteq> (u, r0)" and "u' \<noteq> u \<or> r \<notin> fst ` set rs"
    by (auto simp: p)
  then show ?case
    by (simp add: schedule_user_Cons p Cons.IH schedule_one_other)
qed

lemma schedule_user_armed:
  assumes "distinct (map fst rs)"
    and "readings_within w (schedule_user u w rs) lo hi"
    and "armed (scheduledReminders (schedule_user u w rs)) u r t"
  shows "armed (scheduledReminders w) u r t
         \<or> (\<exists>rem. map_of rs r = Some rem \<and> \<not> completed rem \<and> lo \<le> time rem \<and> t = time rem)"
  using assms
proof (induction rs arbitrary: w)
  case Nil
  then show ?case by (simp add: schedule_user_def)
next
  case (Cons p rs)
  obtain r0 rem0 where p: "p = (r0, rem0)" by (cases p)
  let ?w1 = "schedule_one u w p" and ?w2 = "schedule_user u w (p # rs)"
  have w2: "?w2 = schedule_user u ?w1 rs" by (rule schedule_user_Cons)
  have c1: "clock ?w1 = clock w" "ticks w \<le> ticks ?w1" by (rule schedule_one_clock)+
  have c2: "ticks ?w1 \<le> ticks ?w2" using schedule_user_clock [where u = u and w = ?w1 and rs = rs] by (simp add: w2)
  from Cons.prems(1) have d: "distinct (map fst rs)" and n: "r0 \<notin> fst ` set rs"
    by (auto simp: p)
  have rw: "readings_within ?w1 (schedule_user u ?w1 rs) lo hi"
    using readings_within_tail [OF Cons.prems(2) c1] by (simp add: w2)
  have rh: "readings_within w ?w1 lo hi"
    by (rule readings_within_head [OF Cons.prems(2) c2])
  from Cons.IH [OF d rw] Cons.prems(3)
  consider "armed (scheduledReminders ?w1) u r t"
    | rem where "map_of rs r = Some rem" "\<not> completed rem" "lo \<le> time rem" "t = time rem"
    by (auto simp: w2)
  then show ?case
  proof cases
    case 1
    show ?thesis
    proof (cases "r = r0")
      case True
      from 1 schedule_one_armed [where u = u and w = w and r = r0 and rem = rem0 and t = t] touched_lo [OF _ rh [unfolded p]]
      show ?thesis by (auto simp: p True)
    next
      case False
      with 1 schedule_one_other [where u' = u and r' = r and u = u and r = r0 and w = w and rem = rem0 and t = t] show ?thesis by (simp add: p)
    qed
  next
    case 2
    from 2(1) have "r \<in> fst ` set rs" by (force dest: map_of_SomeD)
    with n have "r \<noteq> r0" by auto
    with 2 show ?thesis by (auto simp: p)
  qed
qed

lemma schedule_user_arms:
  assumes "distinct (map fst rs)"
    and "readings_within w (schedule_user u w rs) lo hi"
    and "map_of rs r = Some rem" and "\<not> completed rem" and "hi \<le> time rem"
  shows "armed (scheduledReminders (schedule_user u w rs)) u r (time rem)"
  using assms(1,2,3)
proof (induction rs arbitrary: w)
  case Nil
  then show ?case by simp
next
  case (Cons p rs)
  obtain r0 rem0 where p: "p = (r0, rem0)" by (cases p)
  let ?w1 = "schedule_one u w p" and ?w2 = "schedule_user u w (p # rs)"
  have w2: "?w2 = schedule_user u ?w1 rs" by (rule schedule_user_Cons)
  have c1: "clock ?w1 = clock w" "ticks w \<le> ticks ?w1" by (rule schedule_one_clock)+
  have c2: "ticks ?w1 \<le> ticks ?w2" using schedule_user_clock [where u = u and w = ?w1 and rs = rs] by (simp add: w2)
  from Cons.prems(1) have d: "distinct (map fst rs)" and n: "r0 \<notin> fst ` set rs"
    by (auto simp: p)
  have rw: "readings_within ?w1 (schedule_user u ?w1 rs) lo hi"
    using readings_within_tail [OF Cons.prems(2) c1] by (simp add: w2)
  have rh: "readings_within w ?w1 lo hi"
    by (rule readings_within_head [OF Cons.prems(2) c2])
  show ?case
  proof (cases "r = r0")
    case True
    with Cons.prems(3) have rem: "rem0 = rem" by (simp add: p)
    have "\<forall>n. ticks w \<le> n \<and> n < ticks (schedule_one u w (r, rem)) \<longrightarrow> clock w n \<le> time rem"
      using rh assms(5) by (fastforce simp: readings_within_def p True rem)
    from schedule_one_arms [OF assms(4) this]
    have "armed (scheduledReminders ?w1) u r (time rem)" by (simp add: p True rem)
    moreover have "armed (scheduledReminders (schedule_user u ?w1 rs)) u r (time rem)
                     = armed (scheduledReminders ?w1) u r (time rem)"
      by (rule schedule_user_other) (use n True in simp)
    ultimately show ?thesis by (simp add: w2)
  next
    case False
    with Cons.prems(3) have "map_of rs r = Some rem" by (simp add: p)
    from Cons.IH [OF d rw this] show ?thesis by (simp add: w2)
  qed
qed

lemma schedule_user_console:
  assumes "readings_within w (schedule_user u w rs) lo hi"
    and "e \<in> set (console (schedule_user u w rs))"
  shows "e \<in> set (console w)
         \<or> (\<exists>r rem. (r, rem) \<in> set rs \<and> \<not> completed rem \<and> lo \<le> time rem
              \<and> (e = Skipping_past r u \<or> e = Scheduled r u (time rem)))"
  using assms
proof (induction rs arbitrary: w)
  case Nil
  then show ?case by (simp add: schedule_user_def)
next
  case (Cons p rs)
  obtain r0 rem0 where p: "p = (r0, rem0)" by (cases p)
  let ?w1 = "schedule_one u w p" and ?w2 = "schedule_user u w (p # rs)"
  have w2: "?w2 = schedule_user u ?w1 rs" by (rule schedule_user_Cons)
  have c1: "clock ?w1 = clock w" "ticks w \<le> ticks ?w1" by (rule schedule_one_clock)+
  have c2: "ticks ?w1 \<le> ticks ?w2" using schedule_user_clock [where u = u and w = ?w1 and rs = rs] by (simp add: w2)
  have rw: "readings_within ?w1 (schedule_user u ?w1 rs) lo hi"
    using readings_within_tail [OF Cons.prems(1) c1] by (simp add: w2)
  have rh: "readings_within w ?w1 lo hi"
    by (rule readings_within_head [OF Cons.prems(1) c2])
  from Cons.IH [OF rw] Cons.prems(2)
  consider "e \<in> set (console ?w1)"
    | r rem where "(r, rem) \<in> set rs" "\<not> completed rem" "lo \<le> time rem"
        "e = Skipping_past r u \<or> e = Scheduled r u (time rem)"
    by (auto simp: w2)
  then show ?case
  proof cases
    case 1
    with schedule_one_console [where e = e and u = u and w = w and r = r0 and rem = rem0] touched_lo [OF _ rh [unfolded p]]
    show ?thesis by (auto simp: p)
  next
    case 2
    then show ?thesis by auto
  qed
qed

lemma schedule_all_Cons:
  "schedule_all w ((u0, rs0) # reminders) = schedule_all (schedule_user u0 w rs0) reminders"
  by (simp add: schedule_all_def)

lemma schedule_all_clock:
  "clock (schedule_all w reminders) = clock w \<and> ticks w \<le> ticks (schedule_all w reminders)"
proof (induction reminders arbitrary: w)
  case Nil
  show ?case by (simp add: schedule_all_def)
next
  case (Cons p reminders)
  obtain u0 rs0 where p: "p = (u0, rs0)" by (cases p)
  from Cons.IH [where w = "schedule_user u0 w rs0"]
    schedule_user_clock [where u = u0 and w = w and rs = rs0]
  show ?case by (simp add: p schedule_all_Cons)
qed

lemma schedule_all_other:
  "u \<notin> fst ` set reminders \<Longrightarrow>
   armed (scheduledReminders (schedule_all w reminders)) u r t = armed (scheduledReminders w) u r t"
proof (induction reminders arbitrary: w)
  case Nil
  show ?case by (simp add: schedule_all_def)
next
  case (Cons p reminders)
  obtain u0 rs0 where p: "p = (u0, rs0)" by (cases p)
  from Cons.prems have "u \<noteq> u0" "u \<notin> fst ` set reminders" by (auto simp: p)
  then show ?case
    by (simp add: p schedule_all_Cons Cons.IH schedule_user_other)
qed

lemma lookup_reminder_Cons:
  "lookup_reminder ((u0, rs0) # reminders) u r =
     (if u = u0 then map_of rs0 r else lookup_reminder reminders u r)"
  by (simp add: lookup_reminder_def)

lemma lookup_reminder_key: "lookup_reminder reminders u r = Some x \<Longrightarrow> u \<in> fst ` set reminders"
  by (auto simp: lookup_reminder_def split: option.splits dest!: map_of_SomeD intro: rev_image_eqI)

lemma schedule_all_armed:
  assumes "wf_store reminders"
    and "readings_within w (schedule_all w reminders) lo hi"
    and "armed (scheduledReminders (schedule_all w reminders)) u r t"
  shows "armed (scheduledReminders w) u r t
         \<or> (\<exists>stored. lookup_reminder reminders u r = Some stored \<and> \<not> completed stored
              \<and> lo \<le> time stored \<and> t = time stored)"
  using assms
proof (induction reminders arbitrary: w)
  case Nil
  then show ?case by (simp add: schedule_all_def)
next
  case (Cons p reminders)
  obtain u0 rs0 where p: "p = (u0, rs0)" by (cases p)
  let ?w1 = "schedule_user u0 w rs0" and ?w2 = "schedule_all w (p # reminders)"
  have w2: "?w2 = schedule_all ?w1 reminders" by (simp add: p schedule_all_Cons)
  have c1: "clock ?w1 = clock w" "ticks w \<le> ticks ?w1"
    using schedule_user_clock [where u = u0 and w = w and rs = rs0] by simp_all
  have c2: "ticks ?w1 \<le> ticks ?w2"
    using schedule_all_clock [where w = ?w1 and reminders = reminders] by (simp add: w2)
  from Cons.prems(1) have wf: "wf_store reminders" and d0: "distinct (map fst rs0)"
    and n: "u0 \<notin> fst ` set reminders"
    by (auto simp: p wf_store_def)
  have rw: "readings_within ?w1 (schedule_all ?w1 reminders) lo hi"
    using readings_within_tail [OF Cons.prems(2) c1] by (simp add: w2)
  have rh: "readings_within w ?w1 lo hi"
    by (rule readings_within_head [OF Cons.prems(2) c2])
  from Cons.IH [OF wf rw] Cons.prems(3)
  consider "armed (scheduledReminders ?w1) u r t"
    | stored where "lookup_reminder reminders u r = Some stored" "\<not> completed stored"
        "lo \<le> time stored" "t = time stored"
    by (auto simp: w2)
  then show ?case
  proof cases
    case 1
    show ?thesis
    proof (cases "u = u0")
      case True
      from schedule_user_armed [OF d0 rh] 1 show ?thesis
        by (auto simp: p True lookup_reminder_Cons)
    next
      case False
      with 1 schedule_user_other [where u' = u and u = u0 and r = r and rs = rs0 and w = w and t = t]
      show ?thesis by simp
    qed
  next
    case 2
    from lookup_reminder_key [OF 2(1)] n have "u \<noteq> u0" by auto
    with 2 show ?thesis by (auto simp: p lookup_reminder_Cons)
  qed
qed

lemma schedule_all_arms:
  assumes "wf_store reminders"
    and "readings_within w (schedule_all w reminders) lo hi"
    and "lookup_reminder reminders u r = Some stored"
    and "\<not> completed stored" and "hi \<le> time stored"
  shows "armed (scheduledReminders (schedule_all w reminders)) u r (time stored)"
  using assms(1,2,3)
proof (induction reminders arbitrary: w)
  case Nil
  then show ?case by (simp add: lookup_reminder_def)
next
  case (Cons p reminders)
  obtain u0 rs0 where p: "p = (u0, rs0)" by (cases p)
  let ?w1 = "schedule_user u0 w rs0" and ?w2 = "schedule_all w (p # reminders)"
  have w2: "?w2 = schedule_all ?w1 reminders" by (simp add: p schedule_all_Cons)
  have c1: "clock ?w1 = clock w" "ticks w \<le> ticks ?w1"
    using schedule_user_clock [where u = u0 and w = w and rs = rs0] by simp_all
  have c2: "ticks ?w1 \<le> ticks ?w2"
    using schedule_all_clock [where w = ?w1 and reminders = reminders] by (simp add: w2)
  from Cons.prems(1) have wf: "wf_store reminders" and d0: "distinct (map fst rs0)"
    and n: "u0 \<notin> fst ` set reminders"
    by (auto simp: p wf_store_def)
  have rw: "readings_within ?w1 (schedule_all ?w1 reminders) lo hi"
    using readings_within_tail [OF Cons.prems(2) c1] by (simp add: w2)
  have rh: "readings_within w ?w1 lo hi"
    by (rule readings_within_head [OF Cons.prems(2) c2])
  show ?case
  proof (cases "u = u0")
    case True
    with Cons.prems(3) have "map_of rs0 r = Some stored" by (simp add: p lookup_reminder_Cons)
    from schedule_user_arms [OF d0 rh this assms(4,5)]
    have "armed (scheduledReminders ?w1) u r (time stored)" by (simp add: True)
    moreover have "armed (scheduledReminders (schedule_all ?w1 reminders)) u r (time stored)
                     = armed (scheduledReminders ?w1) u r (time stored)"
      by (rule schedule_all_other) (use n True in simp)
    ultimately show ?thesis by (simp add: w2)
  next
    case False
    with Cons.prems(3) have "lookup_reminder reminders u r = Some stored"
      by (simp add: p lookup_reminder_Cons)
    from Cons.IH [OF wf rw this] show ?thesis by (simp add: w2)
  qed
qed

lemma schedule_all_console:
  assumes "wf_store reminders"
    and "readings_within w (schedule_all w reminders) lo hi"
    and "e \<in> set (console (schedule_all w reminders))"
  shows "e \<in> set (console w)
         \<or> (\<exists>u r stored. lookup_reminder reminders u r = Some stored \<and> \<not> completed stored
              \<and> lo \<le> time stored
              \<and> (e = Skipping_past r u \<or> e = Scheduled r u (time stored)))"
  using assms
proof (induction reminders arbitrary: w)
  case Nil
  then show ?case by (simp add: schedule_all_def)
next
  case (Cons p reminders)
  obtain u0 rs0 where p: "p = (u0, rs0)" by (cases p)
  let ?w1 = "schedule_user u0 w rs0" and ?w2 = "schedule_all w (p # reminders)"
  have w2: "?w2 = schedule_all ?w1 reminders" by (simp add: p schedule_all_Cons)
  have c1: "clock ?w1 = clock w" "ticks w \<le> ticks ?w1"
    using schedule_user_clock [where u = u0 and w = w and rs = rs0] by simp_all
  have c2: "ticks ?w1 \<le> ticks ?w2"
    using schedule_all_clock [where w = ?w1 and reminders = reminders] by (simp add: w2)
  from Cons.prems(1) have wf: "wf_store reminders" and d0: "distinct (map fst rs0)"
    and n: "u0 \<notin> fst ` set reminders"
    by (auto simp: p wf_store_def)
  have rw: "readings_within ?w1 (schedule_all ?w1 reminders) lo hi"
    using readings_within_tail [OF Cons.prems(2) c1] by (simp add: w2)
  have rh: "readings_within w ?w1 lo hi"
    by (rule readings_within_head [OF Cons.prems(2) c2])
  from Cons.IH [OF wf rw] Cons.prems(3)
  consider "e \<in> set (console ?w1)"
    | u r stored where "lookup_reminder reminders u r = Some stored" "\<not> completed stored"
        "lo \<le> time stored" "e = Skipping_past r u \<or> e = Scheduled r u (time stored)"
    by (auto simp: w2)
  then show ?case
  proof cases
    case 1
    from schedule_user_console [OF rh 1]
    consider "e \<in> set (console w)"
      | r rem where "(r, rem) \<in> set rs0" "\<not> completed rem" "lo \<le> time rem"
          "e = Skipping_past r u0 \<or> e = Scheduled r u0 (time rem)"
      by auto
    then show ?thesis
    proof cases
      case 1
      then show ?thesis by simp
    next
      case 2
      from 2(1) d0 have "map_of rs0 r = Some rem" by simp
      then have "lookup_reminder (p # reminders) u0 r = Some rem"
        by (simp add: p lookup_reminder_Cons)
      with 2 show ?thesis by blast
    qed
  next
    case 2
    from lookup_reminder_key [OF 2(1)] n have "u \<noteq> u0" by auto
    with 2(1) have "lookup_reminder (p # reminders) u r = Some stored"
      by (simp add: p lookup_reminder_Cons)
    with 2 show ?thesis by blast
  qed
qed

lemma armed_empty: "\<not> armed Map.empty u r t"
  by (simp add: armed_def)

lemma initializeReminderSystem_Content:
  assumes "reminders_json w = Content reminders"
  shows "initializeReminderSystem w
           = console_log Initialized (schedule_all (console_log Initializing w) reminders)"
  using assms by (simp add: initializeReminderSystem_def Let_def console_log_def)

section \<open>The fire step\<close>

subsection \<open>The notification is built from the captured reminder\<close>

text \<open>
  Claim C1 says that the fire step re-reads the record from the Store before it delivers
  and that the notification carries the record's current text. The code does neither.
  As amended: when a reminder's timer fires, \<open>sendReminderNotification\<close> builds the
  notification from the reminder object that the job captured when the timer was armed,
  whatever the file holds; the Store is read only after the delivery, by
  \<open>markReminderAsCompleted\<close>. For every state with a profile for the user and a socket
  that delivers, the message sent is the message of the captured reminder, and it quotes
  the captured text.
\<close>

theorem C1_notification_uses_captured_copy:
  assumes "user_data w userId = Some ud"
    and "sock userId (reminder_message ud reminder)"
  shows "sent (sendReminderNotification h sock w userId reminderId reminder) =
           sent w @ [(userId, reminder_message ud reminder)]
         \<and> (\<exists>before after. reminder_message ud reminder =
               before @ ''*'' @ text' reminder @ ''*'' @ after)"
proof -
  have "reminder_message ud reminder =
          (alarm_clock @ '' *REMINDER* '' @ alarm_clock @ nl @ nl
           @ (if truthy (companionName ud)
              then ''Hey '' @ to_str (userName ud) @ '', it's '' @ to_str (companionName ud)
                   @ '' here! '' @ dizzy @ nl @ nl
              else [])
           @ ''You asked me to remind you about:'' @ nl)
          @ ''*'' @ text' reminder @ ''*''
          @ (if truthy (recurring reminder)
             then nl @ nl @ ''This is a recurring reminder ('' @ to_str (recurring reminder) @ '').''
             else [])"
    by (simp add: reminder_message_def)
  then have "\<exists>before after. reminder_message ud reminder =
               before @ ''*'' @ text' reminder @ ''*'' @ after"
    by blast
  then show ?thesis
    using assms by (simp add: send_delivered console_log_def mark_sent)
qed

text \<open>The file says \<open>buy milk\<close>, the job has captured \<open>call mom\<close>: the message of the
  captured reminder is sent.\<close>

theorem C1_notification_uses_captured_copy_witness:
  "sent (sendReminderNotification utc_host sock_up w_edited ''u1'' ''1704873600000'' (call_mom None)) =
     [(''u1'', reminder_message sam (call_mom None))]"
proof -
  have u: "user_data w_edited ''u1'' = Some sam" by code_simp
  have s: "sock_up ''u1'' (reminder_message sam (call_mom None))" by (simp add: sock_up_def)
  have e: "sent w_edited = []" by code_simp
  from C1_notification_uses_captured_copy
         [where sock = sock_up and h = utc_host and reminderId = "''1704873600000''", OF u s] e
  show ?thesis by simp
qed

text \<open>
  Claim C1 as stated fails: the job that \<open>createReminder\<close> registered holds
  \<open>call mom\<close>, the current record of the file holds \<open>buy milk\<close>, and when the job fires
  the message sent is the one for \<open>call mom\<close>, which differs from the one for the
  current record.
\<close>

theorem C1_stale_text_counterexample:
  "the_job (w_created None) ''u1'' ''1704873600000'' = Some (j_created None)
   \<and> lookup_reminder (the_store w_edited) ''u1'' ''1704873600000''
       = Some ((call_mom None)\<lparr>text' := ''buy milk''\<rparr>)
   \<and> sent (fire utc_host sock_up w_edited (j_created None))
       = [(''u1'', reminder_message sam (call_mom None))]
   \<and> reminder_message sam (call_mom None)
       \<noteq> reminder_message sam ((call_mom None)\<lparr>text' := ''buy milk''\<rparr>)"
  by code_simp

subsection \<open>A recurring reminder is advanced but not re-armed\<close>

text \<open>
  Claim C2 says that after a recurring reminder fires, its record is kept, its due time
  is persisted as the next occurrence, a live timer is armed again for the new instant
  and the owner's record count is unchanged. The code cancels the old job and arms
  nothing (lines 180 and 181 leave that to the next start of the process). As amended:
  for a reminder captured with recurrence \<open>daily\<close>, \<open>weekly\<close> or \<open>monthly\<close>, when the
  user has a profile, the delivery succeeds, the file holds the record, its next
  occurrence is a valid date, the job in the timer table is not \<open>null\<close> and the file can
  be written, the file afterwards holds the record with the next occurrence as its time,
  the user has as many records as before, and no live timer exists for the reminder at
  any instant.
\<close>

theorem C2_recurring_advanced_not_rearmed:
  assumes "user_data w userId = Some ud"
    and "sock userId (reminder_message ud reminder)"
    and "recurring reminder = Some rc"
    and "rc = ''daily'' \<or> rc = ''weekly'' \<or> rc = ''monthly''"
    and "reminders_json w = Content reminders"
    and "lookup_reminder reminders userId reminderId = Some stored"
    and "nextTime h rc (time stored) = Some (Date t')"
    and "cancel_job False (scheduledReminders w) userId reminderId \<noteq> None"
    and "fs_writable w"
  shows "\<exists>reminders'.
           reminders_json (sendReminderNotification h sock w userId reminderId reminder)
             = Content reminders'
           \<and> lookup_reminder reminders' userId reminderId = Some (stored\<lparr>time := t'\<rparr>)
           \<and> count_reminders reminders' userId = count_reminders reminders userId
           \<and> (\<forall>t. \<not> armed (scheduledReminders
                   (sendReminderNotification h sock w userId reminderId reminder))
                   userId reminderId t)"
proof -
  from assms(8) obtain tbl where
    tbl: "cancel_job False (scheduledReminders w) userId reminderId = Some tbl" by auto
  have rc: "truthy (Some rc)" using assms(4) by (auto simp: truthy_def)
  define w1 where "w1 = w\<lparr>sent := sent w @ [(userId, reminder_message ud reminder)]\<rparr>"
  have m: "markReminderAsCompleted h w1 userId reminderId (Some rc) =
             w1\<lparr>scheduledReminders := tbl,
                reminders_json := Content (put_reminder reminders userId reminderId
                                             (stored\<lparr>time := t'\<rparr>))\<rparr>"
    by (rule mark_recurring) (use assms tbl rc in \<open>simp_all add: w1_def\<close>)
  have s: "sendReminderNotification h sock w userId reminderId reminder =
             console_log (Sent_notification userId reminderId)
               (w1\<lparr>scheduledReminders := tbl,
                   reminders_json := Content (put_reminder reminders userId reminderId
                                                (stored\<lparr>time := t'\<rparr>))\<rparr>)"
    using send_delivered [where sock = sock and h = h and r = reminderId, OF assms(1,2)] m by (simp add: assms(3) w1_def)
  show ?thesis
    unfolding s
    using lookup_put_reminder [OF assms(6)] count_put_reminder [OF assms(6)]
      cancel_job_not_armed [OF tbl]
    by (simp add: console_log_def)
qed

text \<open>The daily reminder of 2024-01-10T09:00:00Z: the record moves to
  2024-01-11T09:00:00Z (1704963600000), one record remains, the old timer is gone.\<close>

theorem C2_recurring_advanced_not_rearmed_witness:
  "lookup_reminder
     (the_store (fire utc_host sock_up (w_created (Some ''daily'')) (j_created (Some ''daily''))))
     ''u1'' ''1704873600000'' = Some ((call_mom (Some ''daily''))\<lparr>time := 1704963600000\<rparr>)
   \<and> count_reminders
       (the_store (fire utc_host sock_up (w_created (Some ''daily'')) (j_created (Some ''daily''))))
       ''u1'' = 1
   \<and> \<not> armed (scheduledReminders
         (fire utc_host sock_up (w_created (Some ''daily'')) (j_created (Some ''daily''))))
         ''u1'' ''1704873600000'' 1704877200000"
proof -
  let ?w = "w_created (Some ''daily'')" and ?r = "call_mom (Some ''daily'')"
  let ?st = "[(''u1'', [(''1704873600000'', ?r)])]"
  have 1: "user_data ?w ''u1'' = Some sam" by code_simp
  have 2: "sock_up ''u1'' (reminder_message sam ?r)" by (simp add: sock_up_def)
  have 3: "recurring ?r = Some ''daily''" by (simp add: call_mom_def)
  have 4: "''daily'' = ''daily'' \<or> ''daily'' = ''weekly'' \<or> ''daily'' = ''monthly''" by simp
  have 5: "reminders_json ?w = Content ?st" by code_simp
  have 6: "lookup_reminder ?st ''u1'' ''1704873600000'' = Some ?r" by code_simp
  have 7: "nextTime utc_host ''daily'' (time ?r) = Some (Date 1704963600000)" by code_simp
  have 8: "cancel_job False (scheduledReminders ?w) ''u1'' ''1704873600000'' \<noteq> None" by code_simp
  have 9: "fs_writable ?w" by code_simp
  have c: "count_reminders ?st ''u1'' = 1" by code_simp
  from C2_recurring_advanced_not_rearmed
         [where sock = sock_up and h = utc_host, OF 1 2 3 4 5 6 7 8 9]
  show ?thesis
    by (auto simp: fire_def j_created_def the_store_def c)
qed

text \<open>
  Claim C2 as stated fails: the timer armed by \<open>createReminder\<close> fires, the record is
  advanced to 2024-01-11T09:00:00Z, and no live timer exists for that instant.
\<close>

theorem C2_no_live_timer_counterexample:
  "armed (scheduledReminders (w_created (Some ''daily''))) ''u1'' ''1704873600000'' 1704877200000
   \<and> the_job (w_created (Some ''daily'')) ''u1'' ''1704873600000'' = Some (j_created (Some ''daily''))
   \<and> lookup_reminder
       (the_store (fire utc_host sock_up (w_created (Some ''daily'')) (j_created (Some ''daily''))))
       ''u1'' ''1704873600000'' = Some ((call_mom (Some ''daily''))\<lparr>time := 1704963600000\<rparr>)
   \<and> \<not> armed (scheduledReminders
         (fire utc_host sock_up (w_created (Some ''daily'')) (j_created (Some ''daily''))))
         ''u1'' ''1704873600000'' 1704963600000"
  by code_simp

subsection \<open>A failed delivery skips the rest of the fire step\<close>

text \<open>
  Claim C3 says that a failed delivery does not block the steps after it. In the code
  \<open>sock.sendMessage\<close> is awaited inside the \<open>try\<close> of \<open>sendReminderNotification\<close>, so its
  failure jumps to the \<open>catch\<close> of line 126 and \<open>markReminderAsCompleted\<close> is never
  called. As amended: when the delivery fails, the failure is logged and swallowed and
  the steps after the delivery are skipped; the file, the timer table and the list of
  delivered messages are as before.
\<close>

theorem C3_delivery_failure_skips_completion:
  assumes "user_data w userId = Some ud"
    and "\<not> sock userId (reminder_message ud reminder)"
  shows "reminders_json (sendReminderNotification h sock w userId reminderId reminder)
           = reminders_json w
         \<and> scheduledReminders (sendReminderNotification h sock w userId reminderId reminder)
           = scheduledReminders w
         \<and> sent (sendReminderNotification h sock w userId reminderId reminder) = sent w
         \<and> console (sendReminderNotification h sock w userId reminderId reminder)
           = console w @ [Error_sending userId reminderId]"
  using send_failed [where sock = sock and h = h and r = reminderId, OF assms]
  by (simp add: console_log_def)

text \<open>With a socket that fails, the reminder of \<open>u1\<close> stays in the file and its timer
  stays in the table.\<close>

theorem C3_delivery_failure_skips_completion_witness:
  "reminders_json (fire utc_host sock_down (w_created None) (j_created None))
     = Content [(''u1'', [(''1704873600000'', call_mom None)])]
   \<and> armed (scheduledReminders (fire utc_host sock_down (w_created None) (j_created None)))
       ''u1'' ''1704873600000'' 1704877200000
   \<and> sent (fire utc_host sock_down (w_created None) (j_created None)) = []"
proof -
  have 1: "user_data (w_created None) ''u1'' = Some sam" by code_simp
  have 2: "\<not> sock_down ''u1'' (reminder_message sam (call_mom None))" by (simp add: sock_down_def)
  have 3: "reminders_json (w_created None) = Content [(''u1'', [(''1704873600000'', call_mom None)])]"
    by code_simp
  have 4: "armed (scheduledReminders (w_created None)) ''u1'' ''1704873600000'' 1704877200000"
    by code_simp
  have 5: "sent (w_created None) = []" by code_simp
  from C3_delivery_failure_skips_completion
         [where sock = sock_down and h = utc_host and reminderId = "''1704873600000''", OF 1 2]
  show ?thesis by (simp add: fire_def j_created_def 3 4 5)
qed

text \<open>
  Claim C3 as stated fails: after a failed delivery the non-recurring reminder is still
  in the file, where a successful delivery deletes it, and the daily reminder keeps its
  time, where a successful delivery advances it.
\<close>

theorem C3_failed_delivery_blocks_counterexample:
  "lookup_reminder (the_store (fire utc_host sock_down (w_created None) (j_created None)))
     ''u1'' ''1704873600000'' = Some (call_mom None)
   \<and> lookup_reminder (the_store (fire utc_host sock_up (w_created None) (j_created None)))
     ''u1'' ''1704873600000'' = None
   \<and> lookup_reminder
       (the_store (fire utc_host sock_down (w_created (Some ''daily'')) (j_created (Some ''daily''))))
       ''u1'' ''1704873600000'' = Some (call_mom (Some ''daily''))
   \<and> lookup_reminder
       (the_store (fire utc_host sock_up (w_created (Some ''daily'')) (j_created (Some ''daily''))))
       ''u1'' ''1704873600000'' = Some ((call_mom (Some ''daily''))\<lparr>time := 1704963600000\<rparr>)"
  by code_simp

subsection \<open>A non-recurring reminder is deleted after delivery\<close>

text \<open>
  Claim C4. For a reminder captured with no recurrence (\<open>null\<close>, or the empty string),
  once the notification is delivered the file holds no record for the user and the
  reminder id (the user has a profile, the file is readable and writable, and the job in
  the timer table is not \<open>null\<close>). In every state, the fire step of such a reminder
  either leaves the file as it is or writes the collection without the record: it never
  persists the record with \<open>completed = true\<close>.
\<close>

theorem C4_non_recurring_deleted:
  assumes "\<not> truthy (recurring reminder)"
  shows "(user_data w userId = Some ud \<and> sock userId (reminder_message ud reminder)
          \<and> reminders_json w = Content reminders
          \<and> cancel_job True (scheduledReminders w) userId reminderId \<noteq> None
          \<and> fs_writable w
          \<longrightarrow> (\<exists>reminders'.
                 reminders_json (sendReminderNotification h sock w userId reminderId reminder)
                   = Content reminders'
                 \<and> lookup_reminder reminders' userId reminderId = None))
         \<and> (reminders_json (sendReminderNotification h sock w userId reminderId reminder)
               = reminders_json w
             \<or> (\<exists>reminders0. reminders_json w = Content reminders0
                  \<and> reminders_json (sendReminderNotification h sock w userId reminderId reminder)
                      = Content (remove_reminder reminders0 userId reminderId)))"
proof (intro conjI impI)
  assume "user_data w userId = Some ud \<and> sock userId (reminder_message ud reminder)
          \<and> reminders_json w = Content reminders
          \<and> cancel_job True (scheduledReminders w) userId reminderId \<noteq> None
          \<and> fs_writable w"
  with assms show "\<exists>reminders'.
          reminders_json (sendReminderNotification h sock w userId reminderId reminder)
            = Content reminders'
          \<and> lookup_reminder reminders' userId reminderId = None"
    by (intro send_non_recurring_deleted [where sock = sock and ud = ud]) simp_all
next
  show "reminders_json (sendReminderNotification h sock w userId reminderId reminder)
               = reminders_json w
             \<or> (\<exists>reminders0. reminders_json w = Content reminders0
                  \<and> reminders_json (sendReminderNotification h sock w userId reminderId reminder)
                      = Content (remove_reminder reminders0 userId reminderId))"
    by (rule send_non_recurring_writes [OF assms])
qed

text \<open>After the reminder of \<open>u1\<close> fires, the file is the empty object.\<close>

theorem C4_non_recurring_deleted_witness:
  "reminders_json (fire utc_host sock_up (w_created None) (j_created None)) = Content []"
proof -
  have 1: "user_data (w_created None) ''u1'' = Some sam" by code_simp
  have 2: "sock_up ''u1'' (reminder_message sam (call_mom None))" by (simp add: sock_up_def)
  have 3: "\<not> truthy (recurring (call_mom None))" by code_simp
  have 4: "reminders_json (w_created None) = Content [(''u1'', [(''1704873600000'', call_mom None)])]"
    by code_simp
  have 5: "cancel_job True (scheduledReminders (w_created None)) ''u1'' ''1704873600000'' \<noteq> None"
    by code_simp
  have 6: "fs_writable (w_created None)" by code_simp
  have 7: "reminders_json (fire utc_host sock_up (w_created None) (j_created None)) = Content []"
    by code_simp
  from C4_non_recurring_deleted
         [where sock = sock_up and h = utc_host and reminderId = "''1704873600000''"
            and w = "w_created None" and userId = "''u1''" and ud = sam, OF 3]
       1 2 4 5 6
  have "\<exists>reminders'.
          reminders_json (sendReminderNotification utc_host sock_up (w_created None) ''u1''
                            ''1704873600000'' (call_mom None)) = Content reminders'
          \<and> lookup_reminder reminders' ''u1'' ''1704873600000'' = None"
    by blast
  then show ?thesis using 7 by simp
qed

subsection \<open>The next occurrence\<close>




subsection \<open>An unrecognized recurrence\<close>

text \<open>
  Claim C6 says that a reminder whose recurrence is none of \<open>none\<close>, \<open>daily\<close>, \<open>weekly\<close>
  and \<open>monthly\<close> is deleted when it fires. The \<open>default\<close> branch of line 166 marks it
  completed instead. As amended: for a reminder captured with a non-empty recurrence
  other than \<open>daily\<close>, \<open>weekly\<close> and \<open>monthly\<close>, after a successful delivery the file
  holds the record with \<open>completed = true\<close>, the user has as many records as before
  and the timer table is untouched. (The empty string counts as no recurrence: claim
  C4.)
\<close>

theorem C6_unrecognized_marked_completed:
  assumes "user_data w userId = Some ud"
    and "sock userId (reminder_message ud reminder)"
    and "recurring reminder = Some rc"
    and "rc \<noteq> []"
    and "rc \<noteq> ''daily'' \<and> rc \<noteq> ''weekly'' \<and> rc \<noteq> ''monthly''"
    and "reminders_json w = Content reminders"
    and "lookup_reminder reminders userId reminderId = Some stored"
    and "fs_writable w"
  shows "\<exists>reminders'.
           reminders_json (sendReminderNotification h sock w userId reminderId reminder)
             = Content reminders'
           \<and> lookup_reminder reminders' userId reminderId = Some (stored\<lparr>completed := True\<rparr>)
           \<and> count_reminders reminders' userId = count_reminders reminders userId
           \<and> scheduledReminders (sendReminderNotification h sock w userId reminderId reminder)
               = scheduledReminders w"
proof -
  have rc: "truthy (Some rc)" using assms(4) by (simp add: truthy_def)
  have nt: "nextTime h rc (time stored) = None" using assms(5) by (simp add: nextTime_cases)
  define w1 where "w1 = w\<lparr>sent := sent w @ [(userId, reminder_message ud reminder)]\<rparr>"
  have m: "markReminderAsCompleted h w1 userId reminderId (Some rc) =
             w1\<lparr>reminders_json := Content (put_reminder reminders userId reminderId
                                             (stored\<lparr>completed := True\<rparr>))\<rparr>"
    by (rule mark_unrecognized [OF _ assms(7) rc nt]) (simp_all add: w1_def assms(6,8))
  have s: "sendReminderNotification h sock w userId reminderId reminder =
             console_log (Sent_notification userId reminderId)
               (w1\<lparr>reminders_json := Content (put_reminder reminders userId reminderId
                                                (stored\<lparr>completed := True\<rparr>))\<rparr>)"
    using send_delivered [where sock = sock and h = h and r = reminderId, OF assms(1,2)] m
    by (simp add: assms(3) w1_def)
  show ?thesis
    unfolding s
    using lookup_put_reminder [OF assms(7)] count_put_reminder [OF assms(7)]
    by (simp add: console_log_def w1_def)
qed

text \<open>With the recurrence \<open>yearly\<close> the record of \<open>u1\<close> stays, completed.\<close>

theorem C6_unrecognized_marked_completed_witness:
  "reminders_json (fire utc_host sock_up (w_created (Some ''yearly'')) (j_created (Some ''yearly'')))
     = Content [(''u1'', [(''1704873600000'', (call_mom (Some ''yearly''))\<lparr>completed := True\<rparr>)])]"
proof -
  let ?w = "w_created (Some ''yearly'')" and ?r = "call_mom (Some ''yearly'')"
  let ?st = "[(''u1'', [(''1704873600000'', ?r)])]"
  have 1: "user_data ?w ''u1'' = Some sam" by code_simp
  have 2: "sock_up ''u1'' (reminder_message sam ?r)" by (simp add: sock_up_def)
  have 3: "recurring ?r = Some ''yearly''" by (simp add: call_mom_def)
  have 4: "''yearly'' \<noteq> []" by simp
  have 5: "''yearly'' \<noteq> ''daily'' \<and> ''yearly'' \<noteq> ''weekly'' \<and> ''yearly'' \<noteq> ''monthly''" by simp
  have 6: "reminders_json ?w = Content ?st" by code_simp
  have 7: "lookup_reminder ?st ''u1'' ''1704873600000'' = Some ?r" by code_simp
  have 8: "fs_writable ?w" by code_simp
  have 9: "reminders_json (fire utc_host sock_up ?w (j_created (Some ''yearly'')))
             = Content [(''u1'', [(''1704873600000'', ?r\<lparr>completed := True\<rparr>)])]"
    by code_simp
  from C6_unrecognized_marked_completed
         [where sock = sock_up and h = utc_host, OF 1 2 3 4 5 6 7 8]
  show ?thesis using 9 by simp
qed

text \<open>
  Claim C6 as stated fails: after the reminder with the recurrence \<open>yearly\<close> fires, its
  record is still in the file, with \<open>completed = true\<close>, where a reminder with no
  recurrence is deleted.
\<close>

theorem C6_record_left_behind_counterexample:
  "lookup_reminder
     (the_store (fire utc_host sock_up (w_created (Some ''yearly'')) (j_created (Some ''yearly''))))
     ''u1'' ''1704873600000'' = Some ((call_mom (Some ''yearly''))\<lparr>completed := True\<rparr>)
   \<and> lookup_reminder (the_store (fire utc_host sock_up (w_created None) (j_created None)))
     ''u1'' ''1704873600000'' = None"
  by code_simp

section \<open>Arming and recovery\<close>

text \<open>
  Claim C7 says that arming is refused for every due time not strictly in the future and
  that the start-up arms exactly the records that are not completed and due strictly
  after now, silently skipping all others. The guards of lines 36 and 64 are
  \<open>time < now\<close>, each with a clock reading of its own, and \<open>scheduleJob\<close> reads the clock
  once more. As amended: \<open>scheduleReminder\<close> leaves the timer table as it is when the due
  time is before the reading of its guard; when it is not, a live timer is registered
  exactly when the due time is not before the next reading either, the one of
  \<open>scheduleJob\<close>. Starting from an empty timer table and a readable file whose objects
  hold each key once, with all the clock readings of the start-up between \<open>lo\<close> and \<open>hi\<close>,
  \<open>initializeReminderSystem\<close> leaves a live timer, at its due time, for every record with
  \<open>completed = false\<close> and a due time not before \<open>hi\<close>; every live timer it leaves is for
  a record with \<open>completed = false\<close> and a due time not before \<open>lo\<close>, at that due time; and
  every line it prints, apart from the two that frame it, is about such a record: a
  completed record and a record due before \<open>lo\<close> are passed over without a line.
\<close>

theorem C7_arming_and_recovery:
  "(time reminder < now_of w \<longrightarrow>
      scheduledReminders (scheduleReminder w userId reminderId reminder)
        = scheduledReminders w)
   \<and> (now_of w \<le> time reminder \<longrightarrow>
        armed (scheduledReminders (scheduleReminder w userId reminderId reminder))
          userId reminderId (time reminder)
        = (now_of (tick w) \<le> time reminder))
   \<and> (\<forall>reminders lo hi.
        reminders_json w = Content reminders \<and> wf_store reminders
        \<and> scheduledReminders w = Map.empty
        \<and> readings_within w (initializeReminderSystem w) lo hi
        \<longrightarrow> (\<forall>u r stored.
               lookup_reminder reminders u r = Some stored \<and> \<not> completed stored
               \<and> hi \<le> time stored
               \<longrightarrow> armed (scheduledReminders (initializeReminderSystem w)) u r (time stored))
          \<and> (\<forall>u r t.
               armed (scheduledReminders (initializeReminderSystem w)) u r t
               \<longrightarrow> (\<exists>stored. lookup_reminder reminders u r = Some stored
                      \<and> \<not> completed stored \<and> lo \<le> time stored \<and> t = time stored))
          \<and> (\<forall>e.
               e \<in> set (console (initializeReminderSystem w))
               \<longrightarrow> e \<in> set (console w) \<or> e = Initializing \<or> e = Initialized
                   \<or> (\<exists>u r stored. lookup_reminder reminders u r = Some stored
                        \<and> \<not> completed stored \<and> lo \<le> time stored
                        \<and> (e = Skipping_past r u \<or> e = Scheduled r u (time stored)))))"
proof (intro conjI allI impI)
  assume "time reminder < now_of w"
  then show "scheduledReminders (scheduleReminder w userId reminderId reminder)
               = scheduledReminders w"
    by (rule scheduleReminder_past)
next
  assume "now_of w \<le> time reminder"
  then show "armed (scheduledReminders (scheduleReminder w userId reminderId reminder))
               userId reminderId (time reminder)
             = (now_of (tick w) \<le> time reminder)"
    by (simp add: armed_scheduleReminder now_of_def tick_def)
next
  fix reminders lo hi
  assume a: "reminders_json w = Content reminders \<and> wf_store reminders
             \<and> scheduledReminders w = Map.empty
             \<and> readings_within w (initializeReminderSystem w) lo hi"
  define w1 where "w1 = console_log Initializing w"
  define w2 where "w2 = schedule_all w1 reminders"
  have i: "initializeReminderSystem w = console_log Initialized w2"
    using a by (simp add: initializeReminderSystem_Content w1_def w2_def)
  have tbl: "scheduledReminders (initializeReminderSystem w) = scheduledReminders w2"
    and con: "console (initializeReminderSystem w) = console w2 @ [Initialized]"
    and tk: "ticks (initializeReminderSystem w) = ticks w2"
    by (simp_all add: i console_log_def)
  have e: "scheduledReminders w1 = Map.empty" and c1: "console w1 = console w @ [Initializing]"
    using a by (simp_all add: w1_def console_log_def)
  have wf: "wf_store reminders" using a by simp
  have rw: "readings_within w1 (schedule_all w1 reminders) lo hi"
    using a by (simp add: readings_within_def tk w2_def [symmetric]) (simp add: w1_def console_log_def)
  {
    fix u r stored
    assume "lookup_reminder reminders u r = Some stored \<and> \<not> completed stored
            \<and> hi \<le> time stored"
    then show "armed (scheduledReminders (initializeReminderSystem w)) u r (time stored)"
      unfolding tbl w2_def by (intro schedule_all_arms [OF wf rw]) simp_all
  next
    fix u r t
    assume "armed (scheduledReminders (initializeReminderSystem w)) u r t"
    then have "armed (scheduledReminders (schedule_all w1 reminders)) u r t"
      by (simp add: tbl w2_def)
    from schedule_all_armed [OF wf rw this]
    show "\<exists>stored. lookup_reminder reminders u r = Some stored
            \<and> \<not> completed stored \<and> lo \<le> time stored \<and> t = time stored"
      by (simp add: e armed_empty)
  next
    fix e
    assume "e \<in> set (console (initializeReminderSystem w))"
    then consider "e = Initialized" | "e \<in> set (console (schedule_all w1 reminders))"
      by (auto simp: con w2_def)
    then show "e \<in> set (console w) \<or> e = Initializing \<or> e = Initialized
                   \<or> (\<exists>u r stored. lookup_reminder reminders u r = Some stored
                        \<and> \<not> completed stored \<and> lo \<le> time stored
                        \<and> (e = Skipping_past r u \<or> e = Scheduled r u (time stored)))"
    proof cases
      case 1
      then show ?thesis by simp
    next
      case 2
      from schedule_all_console [OF wf rw 2] show ?thesis by (auto simp: c1)
    qed
  }
qed

text \<open>The start-up at 2024-01-10T09:00:00Z with a clock that moves on by a millisecond
  at each reading: \<open>scheduleReminder\<close> refuses the overdue reminder, arms the one due in
  an hour, and registers no live timer for a reminder due at the very reading of its
  guard; the start-up takes seven readings, arms the reminder due in an hour and none of
  the overdue one, the completed one and the one due a millisecond after the start.\<close>

theorem C7_arming_and_recovery_witness:
  "scheduledReminders (scheduleReminder w_restart ''u1'' ''b''
      ((call_mom None)\<lparr>time := 1704873600000\<rparr>)) = scheduledReminders w_restart
   \<and> armed (scheduledReminders (scheduleReminder w_restart ''u1'' ''a''
      ((call_mom None)\<lparr>time := 1704880800000\<rparr>))) ''u1'' ''a'' 1704880800000
   \<and> \<not> armed (scheduledReminders (scheduleReminder w_restart ''u1'' ''e'' (call_mom None)))
       ''u1'' ''e'' 1704877200000
   \<and> armed (scheduledReminders (initializeReminderSystem w_restart))
       ''u1'' ''a'' 1704880800000
   \<and> \<not> armed (scheduledReminders (initializeReminderSystem w_restart))
       ''u1'' ''b'' 1704873600000
   \<and> \<not> armed (scheduledReminders (initializeReminderSystem w_restart))
       ''u1'' ''c'' 1704880800000
   \<and> \<not> armed (scheduledReminders (initializeReminderSystem w_restart))
       ''u1'' ''d'' 1704877200001
   \<and> console (initializeReminderSystem w_restart)
       = [Initializing, Scheduled ''d'' ''u1'' 1704877200001,
          Scheduled ''a'' ''u1'' 1704880800000, Initialized]"
proof -
  have w: "now_of w_restart = 1704877200000" "now_of (tick w_restart) = 1704877200001"
    by code_simp+
  have tk: "ticks w_restart = 0" "ticks (initializeReminderSystem w_restart) = 7"
    by code_simp+
  have ck: "clock w_restart n = 1704877200000 + int n" for n
    by (simp add: w_restart_def w_start_def)
  have pre: "reminders_json w_restart = Content restart_store \<and> wf_store restart_store
             \<and> scheduledReminders w_restart = Map.empty
             \<and> readings_within w_restart (initializeReminderSystem w_restart)
                 1704877200000 1704877200006"
    by (simp add: readings_within_def tk ck)
       (simp add: w_restart_def w_start_def wf_store_def restart_store_def)
  have l: "lookup_reminder restart_store ''u1'' ''a''
             = Some ((call_mom None)\<lparr>time := 1704880800000\<rparr>)"
    "lookup_reminder restart_store ''u1'' ''b''
       = Some ((call_mom None)\<lparr>time := 1704873600000\<rparr>)"
    "lookup_reminder restart_store ''u1'' ''c''
       = Some ((call_mom None)\<lparr>time := 1704880800000, completed := True\<rparr>)"
    by code_simp+
  have c: "\<not> completed (call_mom None)" "time (call_mom None) = 1704877200000"
    by (simp_all add: call_mom_def)
  note t = C7_arming_and_recovery [where w = w_restart and userId = "''u1''"]
  from t [where reminder = "(call_mom None)\<lparr>time := 1704873600000\<rparr>" and reminderId = "''b''"]
  have 1: "scheduledReminders (scheduleReminder w_restart ''u1'' ''b''
      ((call_mom None)\<lparr>time := 1704873600000\<rparr>)) = scheduledReminders w_restart"
    by (simp add: w)
  from t [where reminder = "(call_mom None)\<lparr>time := 1704880800000\<rparr>" and reminderId = "''a''"]
  have 2: "armed (scheduledReminders (scheduleReminder w_restart ''u1'' ''a''
      ((call_mom None)\<lparr>time := 1704880800000\<rparr>))) ''u1'' ''a'' 1704880800000"
    by (simp add: w)
  from t [where reminder = "call_mom None" and reminderId = "''e''"]
  have 3: "\<not> armed (scheduledReminders (scheduleReminder w_restart ''u1'' ''e'' (call_mom None)))
       ''u1'' ''e'' 1704877200000"
    by (simp add: w c)
  from t [where reminder = "call_mom None" and reminderId = "''a''"] pre
  have r: "(\<forall>u r stored.
               lookup_reminder restart_store u r = Some stored \<and> \<not> completed stored
               \<and> 1704877200006 \<le> time stored
               \<longrightarrow> armed (scheduledReminders (initializeReminderSystem w_restart)) u r (time stored))
          \<and> (\<forall>u r t.
               armed (scheduledReminders (initializeReminderSystem w_restart)) u r t
               \<longrightarrow> (\<exists>stored. lookup_reminder restart_store u r = Some stored
                      \<and> \<not> completed stored \<and> 1704877200000 \<le> time stored \<and> t = time stored))"
    by blast
  from r l(1) c have 4: "armed (scheduledReminders (initializeReminderSystem w_restart))
       ''u1'' ''a'' 1704880800000"
    by fastforce
  from r l(2) have 5: "\<not> armed (scheduledReminders (initializeReminderSystem w_restart))
       ''u1'' ''b'' 1704873600000"
    by fastforce
  from r l(3) have 6: "\<not> armed (scheduledReminders (initializeReminderSystem w_restart))
       ''u1'' ''c'' 1704880800000"
    by fastforce
  have 7: "\<not> armed (scheduledReminders (initializeReminderSystem w_restart))
       ''u1'' ''d'' 1704877200001"
    "console (initializeReminderSystem w_restart)
       = [Initializing, Scheduled ''d'' ''u1'' 1704877200001,
          Scheduled ''a'' ''u1'' 1704880800000, Initialized]"
    by code_simp+
  from 1 2 3 4 5 6 7 show ?thesis by simp
qed

text \<open>
  Claim C7 as stated fails: when the clock does not move between the readings, a reminder
  that is due at the very clock reading is armed by \<open>scheduleReminder\<close>, and by the
  start-up.
\<close>

theorem C7_due_now_is_armed_counterexample:
  "now_of w_nine = 1704877200000
   \<and> now_of (tick w_nine) = 1704877200000
   \<and> time (call_mom None) = 1704877200000
   \<and> \<not> completed (call_mom None)
   \<and> armed (scheduledReminders (scheduleReminder w_nine ''u1'' ''1704873600000''
                (call_mom None))) ''u1'' ''1704873600000'' 1704877200000
   \<and> lookup_reminder (the_store w_nine) ''u1'' ''1704873600000'' = Some (call_mom None)
   \<and> scheduledReminders w_nine ''u1'' = None
   \<and> armed (scheduledReminders (initializeReminderSystem w_nine))
        ''u1'' ''1704873600000'' 1704877200000"
  by code_simp

section \<open>Creation\<close>

text \<open>
  Claim C8 says that every call of \<open>createReminder\<close> assigns an id that the owner's set
  does not hold yet, also for two creations in the same millisecond. The id is the clock
  reading (line 226, under the comment "Generate a unique ID for the reminder"): a second
  creation for \<open>u1\<close> at the same reading gets the same id, and its record replaces the
  first one.
\<close>

theorem C8_same_millisecond_overwrites:
  "now_of w_start = 1704873600000
   \<and> fst (createReminder w_start ''u1'' ''call mom'' (Date 1704877200000) None)
     = Some ''1704873600000''
   \<and> lookup_reminder (the_store (w_created None)) ''u1'' ''1704873600000'' = Some (call_mom None)
   \<and> now_of (w_created None) = 1704873600000
   \<and> fst (createReminder (w_created None) ''u1'' ''buy milk''
            (Date 1704880800000) None) = Some ''1704873600000''
   \<and> the_store (snd (createReminder (w_created None) ''u1'' ''buy milk''
                       (Date 1704880800000) None))
     = [(''u1'', [(''1704873600000'',
          \<lparr>text' = ''buy milk'', time = 1704880800000, created = 1704873600000,
             completed = False, recurring = None\<rparr>)])]"
  by code_simp

section \<open>The parsers\<close>

subsection \<open>The command \<open>in 2 hours to call mom\<close>\<close>

lemma cmd_content: "trim (rx_delete re_prefix ''in 2 hours to call mom'') = ''in 2 hours to call mom''"
  by code_simp

lemma cmd_recurring_none:
  "find_recurring recurringPatterns ''in 2 hours to call mom'' = (None, ''in 2 hours to call mom'')"
  by code_simp

lemma cmd_toMatch:
  "map_option (\<lambda>m. (trim (grp m 1), trim (grp m 2)))
     (rx_match re_toMatch ''in 2 hours to call mom'') = Some (''in 2 hours'', ''call mom'')"
  by code_simp

lemma in_2_hours_match:
  "map_option (\<lambda>m. (parseInt (grp m 1), toLowerCase (grp m 2)))
     (rx_match re_in ''in 2 hours'') = Some (2, ''hour'')"
  by code_simp

lemma parse_in_2_hours: "parse_in now ''in 2 hours'' = Some (Some (TimeClip (now + 7200000)))"
proof -
  from in_2_hours_match obtain m where m: "rx_match re_in ''in 2 hours'' = Some m"
    "parseInt (grp m 1) = 2" "toLowerCase (grp m 2) = ''hour''"
    by (cases "rx_match re_in ''in 2 hours''") auto
  show ?thesis by (simp add: parse_in_def m Let_def del: One_nat_def)
qed

lemma parseTimeString_in_2_hours:
  "parseTimeString h now ''in 2 hours'' = Some (TimeClip (now + 7200000))"
  by (simp add: parseTimeString_def parse_in_2_hours)

lemma parseReminderCommand_in_2_hours:
  "parseReminderCommand h now ''in 2 hours to call mom'' =
     Some \<lparr>cmd_text = ''call mom'', cmd_time = TimeClip (now + 7200000), cmd_recurring = None\<rparr>"
proof -
  from cmd_toMatch obtain m where m: "rx_match re_toMatch ''in 2 hours to call mom'' = Some m"
    "trim (grp m 1) = ''in 2 hours''" "trim (grp m 2) = ''call mom''"
    by (cases "rx_match re_toMatch ''in 2 hours to call mom''") auto
  show ?thesis
    by (simp add: parseReminderCommand_def cmd_content cmd_recurring_none parse_to_def m
        parseTimeString_in_2_hours Let_def del: One_nat_def)
qed

text \<open>
  Claim C9. Parsing the command text \<open>in 2 hours to call mom\<close> when the host's local
  time is 2024-03-01T10:00:00 returns a result, not \<open>null\<close>: its text is
  \<open>call mom\<close>, its instant is the clock reading plus two hours, which is
  2024-03-01T12:00:00 local time when the host's offset from UTC is then the one at the
  clock reading, and its recurrence is \<open>null\<close>. The host's offset from UTC at the clock
  reading is at most a day.
\<close>

theorem C9_in_2_hours_to_call_mom:
  assumes "\<bar>LocalTZA h now True\<bar> \<le> msPerDay"
    and "LocalTime h now = MakeDate (MakeDay 2024 2 1) (MakeTime 10 0 0 0)"
  shows "\<exists>t. parseReminderCommand h now ''in 2 hours to call mom'' =
           Some \<lparr>cmd_text = ''call mom'', cmd_time = Date t, cmd_recurring = None\<rparr>
         \<and> t = now + 2 * 60 * 60 * 1000
         \<and> (LocalTZA h t True = LocalTZA h now True \<longrightarrow>
              LocalTime h t = MakeDate (MakeDay 2024 2 1) (MakeTime 12 0 0 0))"
proof -
  have d: "MakeDay 2024 2 1 = 19783" by code_simp
  have n: "now = 1709287200000 - LocalTZA h now True"
    using assms(2) by (simp add: LocalTime_def d MakeDate_def MakeTime_def msPerDay_def)
  have "\<bar>now + 7200000\<bar> \<le> 8640000000000000"
    using assms(1) n by (simp add: msPerDay_def)
  then have "TimeClip (now + 7200000) = Date (now + 7200000)"
    by (simp add: TimeClip_def)
  moreover have "LocalTime h (now + 7200000) = MakeDate (MakeDay 2024 2 1) (MakeTime 12 0 0 0)"
    if "LocalTZA h (now + 7200000) True = LocalTZA h now True"
    using that assms(2) by (simp add: LocalTime_def d MakeDate_def MakeTime_def msPerDay_def)
  ultimately show ?thesis
    by (simp add: parseReminderCommand_in_2_hours)
qed

text \<open>On the UTC host, 2024-03-01T10:00:00 is the time value 1709287200000, and
  1709294400000 is 12:00:00 of that day.\<close>

theorem C9_in_2_hours_to_call_mom_witness:
  "parseReminderCommand utc_host 1709287200000 ''in 2 hours to call mom'' =
     Some \<lparr>cmd_text = ''call mom'', cmd_time = Date 1709294400000, cmd_recurring = None\<rparr>
   \<and> LocalTime utc_host 1709294400000 = MakeDate (MakeDay 2024 2 1) (MakeTime 12 0 0 0)"
proof -
  have tz: "\<bar>LocalTZA utc_host 1709287200000 True\<bar> \<le> msPerDay"
    by (simp add: utc_host_def msPerDay_def)
  have same: "LocalTZA utc_host 1709294400000 True = LocalTZA utc_host 1709287200000 True"
    by (simp add: utc_host_def)
  have now: "LocalTime utc_host 1709287200000 = MakeDate (MakeDay 2024 2 1) (MakeTime 10 0 0 0)"
    by code_simp
  from C9_in_2_hours_to_call_mom [OF tz now] same show ?thesis by auto
qed

subsection \<open>The fallback of \<open>parseTimeString\<close> accepts a past instant\<close>

lemma iso_no_match:
  "rx_match re_in ''2020-01-01T00:00:00.000Z'' = None"
  "rx_match re_tomorrow ''2020-01-01T00:00:00.000Z'' = None"
  "rx_match re_today ''2020-01-01T00:00:00.000Z'' = None"
  "rx_match re_dateTime ''2020-01-01T00:00:00.000Z'' = None"
  by code_simp+

lemma iso_fields:
  "map_option (\<lambda>c. (parseInt (grp c 1), parseInt (grp c 2), parseInt (grp c 3), parseInt (grp c 4),
                      parseInt (grp c 5), parseInt (grp c 6), parseInt (grp c 7)))
     (rx_match re_iso ''2020-01-01T00:00:00.000Z'') = Some (2020, 1, 1, 0, 0, 0, 0)"
  by code_simp

lemma iso_value: "TimeClip (MakeDate (MakeDay 2020 (1 - 1) 1) (MakeTime 0 0 0 0)) = Date 1577836800000"
  "leap_days 2020 = 1" "month_start 1 1 - month_start 1 (1 - 1) = 31"
  by code_simp+

lemma Date_parse_iso: "Date_parse h ''2020-01-01T00:00:00.000Z'' = Date 1577836800000"
proof -
  from iso_fields obtain c where c: "rx_match re_iso ''2020-01-01T00:00:00.000Z'' = Some c"
    "parseInt (grp c 1) = 2020" "parseInt (grp c 2) = 1" "parseInt (grp c 3) = 1"
    "parseInt (grp c 4) = 0" "parseInt (grp c 5) = 0" "parseInt (grp c 6) = 0"
    "parseInt (grp c 7) = 0"
    by (cases "rx_match re_iso ''2020-01-01T00:00:00.000Z''") auto
  show ?thesis
    unfolding Date_parse_def c option.case Let_def iso_value by simp
qed

lemma parse_today_future: "parse_today h now s = Some (Some (Date t)) \<Longrightarrow> now < t"
  by (auto simp: parse_today_def Let_def Date_le_def split: option.splits if_splits jsdate.splits)

lemma parse_dateTime_future: "parse_dateTime h now s = Some (Some (Date t)) \<Longrightarrow> now < t"
  by (auto simp: parse_dateTime_def Let_def Date_le_def split: option.splits if_splits jsdate.splits)

text \<open>
  Claim C10. The fallback branch of \<open>parseTimeString\<close> (lines 415 to 419) rejects no
  past instant: the ISO timestamp of 2020-01-01T00:00:00Z comes back as that instant
  whatever the clock reading \<open>now\<close>, so also when \<open>now\<close> is later. The today-at and
  the explicit-date branch never return an instant that is not strictly after \<open>now\<close>.
\<close>

theorem C10_fallback_returns_past_instant:
  "parseTimeString h now ''2020-01-01T00:00:00.000Z'' = Some (Date 1577836800000)
   \<and> (\<forall>s t. parse_today h now s = Some (Some (Date t)) \<longrightarrow> now < t)
   \<and> (\<forall>s t. parse_dateTime h now s = Some (Some (Date t)) \<longrightarrow> now < t)"
proof (intro conjI allI impI)
  show "parseTimeString h now ''2020-01-01T00:00:00.000Z'' = Some (Date 1577836800000)"
    by (simp add: parseTimeString_def parse_in_def parse_tomorrow_def parse_today_def
        parse_dateTime_def iso_no_match parse_direct_def Date_parse_iso)
next
  fix s t assume "parse_today h now s = Some (Some (Date t))"
  then show "now < t" by (rule parse_today_future)
next
  fix s t assume "parse_dateTime h now s = Some (Some (Date t))"
  then show "now < t" by (rule parse_dateTime_future)
qed

text \<open>At 2024-03-01T10:00:00Z the timestamp of 2020 is in the past and is returned;
  \<open>today at 1pm\<close> and \<open>12/25 at 1:30 PM\<close> are returned and lie after the clock
  reading; \<open>today at 1am\<close> and \<open>1/1/2020 at 1am\<close> have passed and give \<open>null\<close>.\<close>

theorem C10_fallback_returns_past_instant_witness:
  "parseTimeString utc_host 1709287200000 ''2020-01-01T00:00:00.000Z'' = Some (Date 1577836800000)
   \<and> (1577836800000 :: int) \<le> 1709287200000
   \<and> parse_today utc_host 1709287200000 ''today at 1pm'' = Some (Some (Date 1709298000000))
   \<and> (1709287200000 :: int) < 1709298000000
   \<and> parse_dateTime utc_host 1709287200000 ''12/25 at 1:30 PM'' = Some (Some (Date 1735133400000))
   \<and> (1709287200000 :: int) < 1735133400000
   \<and> parseTimeString utc_host 1709287200000 ''today at 1am'' = None
   \<and> parseTimeString utc_host 1709287200000 ''1/1/2020 at 1am'' = None"
proof -
  have c: "parseTimeString utc_host 1709287200000 ''today at 1am'' = None"
    "parseTimeString utc_host 1709287200000 ''1/1/2020 at 1am'' = None"
    by code_simp+
  have a: "parse_today utc_host 1709287200000 ''today at 1pm'' = Some (Some (Date 1709298000000))"
    by code_simp
  have b: "parse_dateTime utc_host 1709287200000 ''12/25 at 1:30 PM'' = Some (Some (Date 1735133400000))"
    by code_simp
  from C10_fallback_returns_past_instant [of utc_host 1709287200000] a b c show ?thesis by auto
qed

end
